theory Spec2Isabelle
  imports Main
begin

section \<open>FluentBox: locale resolution, bundle loading and cascading lookup\<close>

text \<open>
  A shallow embedding of the class \<^verbatim>\<open>FluentBox\<close> of \<^verbatim>\<open>src/index.ts\<close>.
  JavaScript strings are \<^typ>\<open>string\<close>; objects that the class mutates while several
  handles refer to them (the \<^verbatim>\<open>_assets\<close> map and the \<^verbatim>\<open>_bundleInitializers\<close>
  array) live in an explicit store and the handles hold their addresses; an exception is
  a value of type \<open>Error\<close>; a recursion that the source does not bound takes a recursion
  depth and returns \<open>None\<close> when the depth is used up.
\<close>

subsection \<open>Platform and library values\<close>

datatype Error =
    MalformedLocale string       \<comment> \<open>\<^verbatim>\<open>Error(`${s} is a malformed locale`)\<close>\<close>
  | NotALocale                   \<comment> \<open>\<^verbatim>\<open>Error("Locale argument must be an Intl.Locale object")\<close>\<close>
  | UnsupportedLocale string     \<comment> \<open>\<^verbatim>\<open>Error(`Unsupported locale: ${newLocale.toString()}`)\<close>\<close>
  | RangeError string            \<comment> \<open>thrown by \<^verbatim>\<open>new Intl.Locale\<close> on an ill-formed tag\<close>
  | ReferenceError string        \<comment> \<open>an error that the formatter of a bundle reports\<close>
  | Failure string               \<comment> \<open>a rejection of a resource backend, an exception of a callback\<close>

text \<open>
  An \<^verbatim>\<open>Intl.Locale\<close> object: its identity (two objects made by two \<^verbatim>\<open>new\<close> are
  different values for \<^verbatim>\<open>Set\<close> and \<^verbatim>\<open>===\<close>, whatever their tags) and the canonical
  identifier that \<^verbatim>\<open>toString()\<close> returns.
\<close>

record Locale =
  oid :: nat
  toString :: string

text \<open>
  The canonicalisation that \<^verbatim>\<open>new Intl.Locale(s).toString()\<close> performs belongs to the
  platform; the model takes it as a parameter: \<open>None\<close> where the constructor throws.
\<close>

type_synonym Canon = "string \<Rightarrow> string option"

text \<open>
  The bundle of \<^verbatim>\<open>@fluent/bundle\<close>, by the two methods the class calls.
  \<^verbatim>\<open>getMessage(id)\<close> gives a message or \<^verbatim>\<open>undefined\<close>, and a message has a pattern or
  \<^verbatim>\<open>null\<close> as its \<^verbatim>\<open>value\<close>. The resolution of a pattern with arguments gives a text
  and the errors it reports on the way (an unknown variable, for one), which is the field
  \<open>b_formatPattern\<close>; the method \<^verbatim>\<open>formatPattern(pattern, args, errors)\<close> pushes the
  reported errors on the array \<^verbatim>\<open>errors\<close> and returns the text when the caller has given an
  array, and throws the first reported error when \<^verbatim>\<open>errors\<close> is \<^verbatim>\<open>null\<close>.
\<close>

type_synonym Pattern = string
type_synonym FluentArgs = "(string \<times> string) list"

record Message =
  mvalue :: "Pattern option"

record FluentBundle =
  b_getMessage :: "string \<Rightarrow> Message option"
  b_formatPattern :: "Pattern \<Rightarrow> FluentArgs option \<Rightarrow> string \<times> Error list"

definition formatPattern ::
  "FluentBundle \<Rightarrow> Pattern \<Rightarrow> FluentArgs option \<Rightarrow> Error list option \<Rightarrow>
   Error + string \<times> Error list option" where
  "formatPattern bundle pattern args errors =
     (case b_formatPattern bundle pattern args of
        (text, reported) \<Rightarrow>
          (case errors of
             Some sink \<Rightarrow> Inr (text, Some (sink @ reported))
           | None \<Rightarrow>
               (case reported of
                  [] \<Rightarrow> Inr (text, None)
                | e # es \<Rightarrow> Inl e)))"

text \<open>
  A callback \<^verbatim>\<open>(locale, bundle) => void\<close>: called with a bundle it leaves the bundle
  changed or throws (\<open>onBundle\<close>); called with \<^verbatim>\<open>undefined\<close> in the place of the bundle
  it returns or throws (\<open>onUndefined\<close>, the exception if it throws).
\<close>

record BundleInitializer =
  onBundle :: "Locale \<Rightarrow> FluentBundle \<Rightarrow> Error + FluentBundle"
  onUndefined :: "Locale \<Rightarrow> Error option"

text \<open>
  \<^verbatim>\<open>String.prototype.toLowerCase\<close> on the ASCII letters, which are the letters of a
  locale identifier.
\<close>

definition lowerChar :: "char \<Rightarrow> char" where
  "lowerChar c =
     (case map_of (zip ''ABCDEFGHIJKLMNOPQRSTUVWXYZ'' ''abcdefghijklmnopqrstuvwxyz'') c of
        None \<Rightarrow> c
      | Some d \<Rightarrow> d)"

definition toLowerCase :: "string \<Rightarrow> string" where
  "toLowerCase s = map lowerChar s"

subsection \<open>The store and the handle\<close>

text \<open>
  \<open>maps h a\<close> is the content of the \<^verbatim>\<open>Map<string, FluentBundle>\<close> at address \<open>a\<close>,
  \<open>arrays h a\<close> the content of the \<^verbatim>\<open>BundleInitializer[]\<close> at address \<open>a\<close>, and
  \<open>nextId h\<close> the first identity no object has yet.
\<close>

record Heap =
  maps :: "nat \<Rightarrow> (string \<rightharpoonup> FluentBundle)"
  arrays :: "nat \<Rightarrow> BundleInitializer list"
  nextId :: nat

datatype Method = http | fileSystem

text \<open>
  The fields of one \<^verbatim>\<open>FluentBox\<close> object, under the source's names without the
  leading underscore (\<open>the_method\<close> is \<^verbatim>\<open>_method\<close>). \<open>assets\<close> and \<open>bundleInitializers\<close> are addresses in the store.
  The collections that no operation writes after the constructor has filled them
  (\<^verbatim>\<open>_localeToPathComponents\<close>, \<^verbatim>\<open>_locales\<close>, \<^verbatim>\<open>_fallbacks\<close>, \<^verbatim>\<open>_files\<close>) are
  held by value.
\<close>

record FluentBox =
  currentLocale :: "Locale option"
  localeToPathComponents :: "string \<rightharpoonup> string"
  locales :: "string set"
  defaultLocale :: "Locale option"
  fallbacks :: "string \<rightharpoonup> string list"
  assets :: nat
  source :: string
  files :: "string list"
  bundleInitializers :: nat
  clean :: bool
  the_method :: Method

record FluentBoxOptions =
  opt_locales :: "string list"
  opt_fallbacks :: "(string \<times> string list) list option"
  opt_defaultLocale :: string
  opt_source :: string
  opt_files :: "string list"
  opt_clean :: bool
  opt_method :: Method

subsection \<open>Construction\<close>

definition new_Locale :: "Canon \<Rightarrow> Heap \<Rightarrow> string \<Rightarrow> Error + Locale \<times> Heap" where
  "new_Locale canon h s =
     (case canon s of
        None \<Rightarrow> Inl (RangeError s)
      | Some t \<Rightarrow> Inr (\<lparr>oid = nextId h, toString = t\<rparr>, h\<lparr>nextId := Suc (nextId h)\<rparr>))"

definition parseLocaleOrThrow :: "Canon \<Rightarrow> Heap \<Rightarrow> string \<Rightarrow> Error + Locale \<times> Heap" where
  "parseLocaleOrThrow canon h s =
     (case new_Locale canon h s of
        Inl e \<Rightarrow> Inl (MalformedLocale s)
      | Inr r \<Rightarrow> Inr r)"

text \<open>The loop of lines 54 to 58 over \<^verbatim>\<open>options.locales\<close>.\<close>

fun ctor_locales ::
  "Canon \<Rightarrow> string list \<Rightarrow> (string \<rightharpoonup> string) \<times> string set \<times> Heap \<Rightarrow>
   Error + (string \<rightharpoonup> string) \<times> string set \<times> Heap" where
  "ctor_locales canon [] st = Inr st"
| "ctor_locales canon (unparsedLocale # rest) (ptc, ls, h) =
     (case parseLocaleOrThrow canon h unparsedLocale of
        Inl e \<Rightarrow> Inl e
      | Inr (parsedLocale, h') \<Rightarrow>
          ctor_locales canon rest
            (ptc(toString parsedLocale \<mapsto> unparsedLocale), insert (toString parsedLocale) ls, h'))"

text \<open>The \<^verbatim>\<open>fallbackArray.map\<close> of lines 70 to 75.\<close>

fun ctor_fallbackArray :: "Canon \<Rightarrow> string list \<Rightarrow> Heap \<Rightarrow> Error + string list \<times> Heap" where
  "ctor_fallbackArray canon [] h = Inr ([], h)"
| "ctor_fallbackArray canon (a # rest) h =
     (case parseLocaleOrThrow canon h a of
        Inl e \<Rightarrow> Inl e
      | Inr (l, h') \<Rightarrow>
          (case ctor_fallbackArray canon rest h' of
             Inl e \<Rightarrow> Inl e
           | Inr (ts, h'') \<Rightarrow> Inr (toString l # ts, h'')))"

text \<open>The loop of lines 60 to 77 over the keys of \<^verbatim>\<open>options.fallbacks\<close>.\<close>

fun ctor_fallbacks ::
  "Canon \<Rightarrow> (string \<times> string list) list \<Rightarrow> (string \<rightharpoonup> string list) \<times> Heap \<Rightarrow>
   Error + (string \<rightharpoonup> string list) \<times> Heap" where
  "ctor_fallbacks canon [] st = Inr st"
| "ctor_fallbacks canon ((fallbackUnparsedLocale, fallbackArray) # rest) (fb, h) =
     (case parseLocaleOrThrow canon h fallbackUnparsedLocale of
        Inl e \<Rightarrow> Inl e
      | Inr (fallbackParsedLocale, h') \<Rightarrow>
          (case ctor_fallbackArray canon fallbackArray h' of
             Inl e \<Rightarrow> Inl e
           | Inr (ts, h'') \<Rightarrow>
               ctor_fallbacks canon rest (fb(toString fallbackParsedLocale \<mapsto> ts), h'')))"

text \<open>
  The constructor on well-typed options (the \<^verbatim>\<open>typeof\<close> and \<^verbatim>\<open>instanceof\<close> checks
  pass on them). The field initialisers allocate the empty \<^verbatim>\<open>_assets\<close> map and the
  empty \<^verbatim>\<open>_bundleInitializers\<close> array before the body runs.
\<close>

definition FluentBox_new :: "Canon \<Rightarrow> Heap \<Rightarrow> FluentBoxOptions \<Rightarrow> Error + FluentBox \<times> Heap" where
  "FluentBox_new canon h0 options =
     (let a = nextId h0;
          i = Suc (nextId h0);
          h = h0\<lparr>maps := (maps h0)(a := Map.empty), arrays := (arrays h0)(i := []),
                nextId := Suc (Suc (nextId h0))\<rparr>
      in case ctor_locales canon (opt_locales options) (Map.empty, {}, h) of
           Inl e \<Rightarrow> Inl e
         | Inr (ptc, ls, h1) \<Rightarrow>
             (case ctor_fallbacks canon
                     (case opt_fallbacks options of None \<Rightarrow> [] | Some fs \<Rightarrow> fs)
                     (Map.empty, h1) of
                Inl e \<Rightarrow> Inl e
              | Inr (fb, h2) \<Rightarrow>
                  (case parseLocaleOrThrow canon h2 (opt_defaultLocale options) of
                     Inl e \<Rightarrow> Inl e
                   | Inr (d, h3) \<Rightarrow>
                       Inr (\<lparr>currentLocale = None,
                             localeToPathComponents = ptc,
                             locales = ls,
                             defaultLocale = Some d,
                             fallbacks = fb,
                             assets = a,
                             source = opt_source options,
                             files = opt_files options,
                             bundleInitializers = i,
                             clean = opt_clean options,
                             the_method = opt_method options\<rparr>, h3))))"

definition addBundleInitializer :: "FluentBox \<Rightarrow> Heap \<Rightarrow> BundleInitializer \<Rightarrow> Heap" where
  "addBundleInitializer this h fn =
     h\<lparr>arrays := (arrays h)(bundleInitializers this := arrays h (bundleInitializers this) @ [fn])\<rparr>"

subsection \<open>supportsLocale\<close>

datatype LocaleArg = LocaleObj Locale | LocaleStr string

text \<open>\<^verbatim>\<open>argument.toString()\<close>: the identifier of a locale object, the string itself for a string.\<close>

fun arg_toString :: "LocaleArg \<Rightarrow> string" where
  "arg_toString (LocaleObj l) = toString l"
| "arg_toString (LocaleStr s) = s"

definition supportsLocale :: "FluentBox \<Rightarrow> LocaleArg \<Rightarrow> bool" where
  "supportsLocale this argument = (arg_toString argument \<in> locales this)"

definition get_currentLocale :: "FluentBox \<Rightarrow> Locale option" where
  "get_currentLocale this = currentLocale this"

subsection \<open>Loading\<close>

text \<open>
  \<^verbatim>\<open>Set.prototype.add\<close> on a \<^verbatim>\<open>Set<Intl.Locale>\<close>, kept in insertion order: the
  element is appended unless the very same object is in the set already.
\<close>

definition Set_add :: "Locale \<Rightarrow> Locale list \<Rightarrow> Locale list" where
  "Set_add x output = (if oid x \<in> oid ` set output then output else output @ [x])"

text \<open>
  \<^verbatim>\<open>_enumerateFallbacksToSet\<close> (lines 235 to 244) and its \<^verbatim>\<open>for\<close> loop. The first
  argument bounds the depth of the recursion, which the source leaves unbounded.
  A \<^verbatim>\<open>RangeError\<close> of \<^verbatim>\<open>new Intl.Locale(item)\<close> ends the traversal.
\<close>

fun enumerateFallbacksToSet ::
    "nat \<Rightarrow> Canon \<Rightarrow> FluentBox \<Rightarrow> string \<Rightarrow> Locale list \<times> Heap \<Rightarrow>
     (Error + Locale list \<times> Heap) option"
  and enumerateFallbacksToSet_for ::
    "nat \<Rightarrow> Canon \<Rightarrow> FluentBox \<Rightarrow> string list \<Rightarrow> Locale list \<times> Heap \<Rightarrow>
     (Error + Locale list \<times> Heap) option" where
  "enumerateFallbacksToSet 0 canon this locale st = None"
| "enumerateFallbacksToSet (Suc n) canon this locale st =
     (case fallbacks this locale of
        None \<Rightarrow> Some (Inr st)
      | Some list \<Rightarrow> enumerateFallbacksToSet_for n canon this list st)"
| "enumerateFallbacksToSet_for n canon this [] st = Some (Inr st)"
| "enumerateFallbacksToSet_for n canon this (item # rest) (output, h) =
     (case new_Locale canon h item of
        Inl e \<Rightarrow> Some (Inl e)
      | Inr (l, h') \<Rightarrow>
          (case enumerateFallbacksToSet n canon this item (Set_add l output, h') of
             None \<Rightarrow> None
           | Some (Inl e) \<Rightarrow> Some (Inl e)
           | Some (Inr st') \<Rightarrow> enumerateFallbacksToSet_for n canon this rest st'))"

text \<open>
  The two resource backends \<^verbatim>\<open>fsLoader\<close> and \<^verbatim>\<open>httpLoader\<close> are parameters of the
  model: applied to the handle, the locale and its identifier, each gives the outcome of
  the promise it returns, a rejection or the pair \<^verbatim>\<open>[string, FluentBundle]\<close>. (Their
  fourth argument is the empty bundle \<^verbatim>\<open>new FluentBundle(localeAsStr)\<close> that they fill.)
\<close>

record Loaders =
  fsloader :: "FluentBox \<Rightarrow> Locale \<Rightarrow> string \<Rightarrow> Error + string \<times> FluentBundle"
  httpLoader :: "FluentBox \<Rightarrow> Locale \<Rightarrow> string \<Rightarrow> Error + string \<times> FluentBundle"

definition loadSingleLocale ::
  "Loaders \<Rightarrow> FluentBox \<Rightarrow> Locale \<Rightarrow> Error + string \<times> FluentBundle" where
  "loadSingleLocale ld this locale =
     (let localeAsStr = toString locale
      in if the_method this = fileSystem then fsloader ld this locale localeAsStr
         else httpLoader ld this locale localeAsStr)"

text \<open>\<^verbatim>\<open>Promise.all\<close>: the list of the values when every promise resolves, a rejection otherwise.\<close>

fun Promise_all :: "(Error + 'a) list \<Rightarrow> Error + 'a list" where
  "Promise_all [] = Inr []"
| "Promise_all (Inl e # ps) = Inl e"
| "Promise_all (Inr x # ps) =
     (case Promise_all ps of Inl e \<Rightarrow> Inl e | Inr xs \<Rightarrow> Inr (x # xs))"

text \<open>The loop of lines 192 to 194: \<^verbatim>\<open>self._assets.set(pair[0], pair[1])\<close>.\<close>

fun setPairs :: "(string \<times> FluentBundle) list \<Rightarrow> (string \<rightharpoonup> FluentBundle) \<Rightarrow> (string \<rightharpoonup> FluentBundle)" where
  "setPairs [] m = m"
| "setPairs (pair # res) m = setPairs res (m(fst pair \<mapsto> snd pair))"

text \<open>
  The loop of lines 197 to 199. An initializer works on the bundle object that the asset
  table holds for the new locale, so what it does to the bundle is seen in the table; an
  exception leaves the loop with the store as it is then. Where the table has no entry
  for the new locale, \<^verbatim>\<open>self._assets.get(...)\<close> is \<^verbatim>\<open>undefined\<close> and the callback is called
  with it.
\<close>

fun runInitializers :: "BundleInitializer list \<Rightarrow> Locale \<Rightarrow> nat \<Rightarrow> Heap \<Rightarrow> Error \<times> Heap + Heap" where
  "runInitializers [] newLocale a h = Inr h"
| "runInitializers (bundleInit # rest) newLocale a h =
     (case maps h a (toString newLocale) of
        None \<Rightarrow>
          (case onUndefined bundleInit newLocale of
             Some e \<Rightarrow> Inl (e, h)
           | None \<Rightarrow> runInitializers rest newLocale a h)
      | Some bundle \<Rightarrow>
          (case onBundle bundleInit newLocale bundle of
             Inl e \<Rightarrow> Inl (e, h)
           | Inr bundle' \<Rightarrow>
               runInitializers rest newLocale a
                 (h\<lparr>maps := (maps h)(a := (maps h a)(toString newLocale \<mapsto> bundle'))\<rparr>)))"

text \<open>
  What a call of \<^verbatim>\<open>load\<close> gives: an exception thrown by the call itself, or the promise
  it returns, resolved with a boolean or rejected; the handle and the store afterwards;
  and the identifiers for which \<^verbatim>\<open>_loadSingleLocale\<close> was called, in the order of the calls.
\<close>

datatype Outcome = Threw Error | Resolved bool | Rejected Error

record LoadResult =
  outcome :: Outcome
  boxAfter :: FluentBox
  heapAfter :: Heap
  fetched :: "string list"

text \<open>The handler of \<^verbatim>\<open>then\<close> (lines 186 to 202); an exception in it reaches \<^verbatim>\<open>catch\<close>.\<close>

definition commit ::
  "FluentBox \<Rightarrow> Heap \<Rightarrow> Locale \<Rightarrow> (string \<times> FluentBundle) list \<Rightarrow> Outcome \<times> FluentBox \<times> Heap" where
  "commit self h newLocale res =
     (let cleared = (if clean self then Map.empty else maps h (assets self));
          h1 = h\<lparr>maps := (maps h)(assets self := setPairs res cleared)\<rparr>;
          self1 = self\<lparr>currentLocale := Some newLocale\<rparr>
      in case runInitializers (arrays h1 (bundleInitializers self1)) newLocale (assets self1) h1 of
           Inl (e, h2) \<Rightarrow> (Resolved False, self1, h2)
         | Inr h2 \<Rightarrow> (Resolved True, self1, h2))"

text \<open>
  \<^verbatim>\<open>load\<close> (lines 171 to 207). The result is \<open>None\<close> when the traversal of the
  fallbacks does not end within depth \<open>n\<close>. An exception in the executor of the promise
  (the traversal) rejects it.
\<close>

definition load ::
  "nat \<Rightarrow> Canon \<Rightarrow> Loaders \<Rightarrow> FluentBox \<Rightarrow> Heap \<Rightarrow> Locale option \<Rightarrow> LoadResult option" where
  "load n canon ld self h newLocale0 =
     (case (case newLocale0 of None \<Rightarrow> defaultLocale self | Some l \<Rightarrow> Some l) of
        None \<Rightarrow> Some \<lparr>outcome = Threw NotALocale, boxAfter = self, heapAfter = h, fetched = []\<rparr>
      | Some newLocale \<Rightarrow>
          if \<not> supportsLocale self (LocaleObj newLocale)
          then Some \<lparr>outcome = Threw (UnsupportedLocale (toString newLocale)),
                     boxAfter = self, heapAfter = h, fetched = []\<rparr>
          else
            (case enumerateFallbacksToSet n canon self (toString newLocale) ([newLocale], h) of
               None \<Rightarrow> None
             | Some (Inl e) \<Rightarrow>
                 Some \<lparr>outcome = Rejected e, boxAfter = self, heapAfter = h, fetched = []\<rparr>
             | Some (Inr (toLoad, h')) \<Rightarrow>
                 (case Promise_all (map (loadSingleLocale ld self) toLoad) of
                    Inl e \<Rightarrow>
                      Some \<lparr>outcome = Resolved False, boxAfter = self, heapAfter = h',
                            fetched = map toString toLoad\<rparr>
                  | Inr res \<Rightarrow>
                      (case commit self h' newLocale res of
                         (out, self', h'') \<Rightarrow>
                           Some \<lparr>outcome = out, boxAfter = self', heapAfter = h'',
                                 fetched = map toString toLoad\<rparr>))))"

subsection \<open>clone\<close>

text \<open>
  \<^verbatim>\<open>clone\<close> (lines 337 to 351): \<^verbatim>\<open>new FluentBox(_PRIVATE_CTOR)\<close> allocates a map and
  an array of its own, which the assignments then replace by those of \<^verbatim>\<open>this\<close>; every
  field of the new object gets the value the field of \<^verbatim>\<open>this\<close> has at that moment.
\<close>

definition clone :: "FluentBox \<Rightarrow> Heap \<Rightarrow> FluentBox \<times> Heap" where
  "clone this h =
     (let a = nextId h;
          i = Suc (nextId h);
          h1 = h\<lparr>maps := (maps h)(a := Map.empty), arrays := (arrays h)(i := []),
                nextId := Suc (Suc (nextId h))\<rparr>;
          r = \<lparr>currentLocale = None, localeToPathComponents = Map.empty, locales = {},
               defaultLocale = None, fallbacks = Map.empty, assets = a, source = [],
               files = [], bundleInitializers = i, clean = True, the_method = http\<rparr>
      in (r\<lparr>currentLocale := currentLocale this,
            localeToPathComponents := localeToPathComponents this,
            locales := locales this,
            defaultLocale := defaultLocale this,
            fallbacks := fallbacks this,
            bundleInitializers := bundleInitializers this,
            assets := assets this,
            source := source this,
            files := files this,
            clean := clean this,
            the_method := the_method this\<rparr>, h1))"

subsection \<open>Lookup\<close>

text \<open>
  Lines 275 to 278, for a message found in a bundle (the variable \<^verbatim>\<open>assets\<close> of the
  source): \<^verbatim>\<open>assets.formatPattern(msg.value, args, errors)\<close> when the message has a value,
  with the exception it may throw, and the empty string when it has none.
\<close>

definition formatFound ::
  "FluentBundle \<Rightarrow> Message \<Rightarrow> FluentArgs option \<Rightarrow> Error list option \<Rightarrow>
   Error + string option \<times> Error list option" where
  "formatFound bundle msg args errors =
     (case mvalue msg of
        Some pattern \<Rightarrow>
          (case formatPattern bundle pattern args errors of
             Inl e \<Rightarrow> Inl e
           | Inr (text, errors') \<Rightarrow> Inr (Some text, errors'))
      | None \<Rightarrow> Inr (Some [], errors))"

text \<open>
  \<^verbatim>\<open>_getMessageByLocale\<close> (lines 265 to 297) and its \<^verbatim>\<open>for\<close> loop over the fallbacks.
  A call that returns gives \<open>Inr\<close> of the returned value (\<open>None\<close> for \<^verbatim>\<open>null\<close>) with the
  sink afterwards; a call that throws gives \<open>Inl\<close> of the exception, which no caller
  catches; the outer \<open>option\<close> is \<open>None\<close> when the recursion goes deeper than the first
  argument.
\<close>

fun getMessageByLocale ::
    "nat \<Rightarrow> FluentBox \<Rightarrow> Heap \<Rightarrow> string \<Rightarrow> string \<Rightarrow> FluentArgs option \<Rightarrow> Error list option \<Rightarrow>
     (Error + string option \<times> Error list option) option"
  and getMessageByLocale_for ::
    "nat \<Rightarrow> FluentBox \<Rightarrow> Heap \<Rightarrow> string \<Rightarrow> string list \<Rightarrow> FluentArgs option \<Rightarrow> Error list option \<Rightarrow>
     (Error + string option \<times> Error list option) option" where
  "getMessageByLocale 0 this h msgId locale args errors = None"
| "getMessageByLocale (Suc n) this h msgId locale args errors =
     (case (case maps h (assets this) locale of
              None \<Rightarrow> None
            | Some bundle \<Rightarrow>
                (case b_getMessage bundle msgId of
                   None \<Rightarrow> None
                 | Some msg \<Rightarrow> Some (formatFound bundle msg args errors))) of
        Some found \<Rightarrow> Some found
      | None \<Rightarrow>
          (case (case fallbacks this locale of
                   None \<Rightarrow> Some (Inr (None, errors))
                 | Some fls \<Rightarrow> getMessageByLocale_for n this h msgId fls args errors) of
             None \<Rightarrow> None
           | Some (Inl e) \<Rightarrow> Some (Inl e)
           | Some (Inr (Some r, errors')) \<Rightarrow> Some (Inr (Some r, errors'))
           | Some (Inr (None, errors')) \<Rightarrow>
               (case defaultLocale this of
                  None \<Rightarrow> Some (Inr (None, errors'))
                | Some d \<Rightarrow>
                    if toLowerCase locale \<noteq> toLowerCase (toString d)
                    then getMessageByLocale n this h msgId (toString d) args errors'
                    else Some (Inr (None, errors')))))"
| "getMessageByLocale_for n this h msgId [] args errors = Some (Inr (None, errors))"
| "getMessageByLocale_for n this h msgId (fl # rest) args errors =
     (case getMessageByLocale n this h msgId fl args errors of
        None \<Rightarrow> None
      | Some (Inl e) \<Rightarrow> Some (Inl e)
      | Some (Inr (Some r, errors')) \<Rightarrow> Some (Inr (Some r, errors'))
      | Some (Inr (None, errors')) \<Rightarrow> getMessageByLocale_for n this h msgId rest args errors')"

definition getMessage ::
  "nat \<Rightarrow> FluentBox \<Rightarrow> Heap \<Rightarrow> string \<Rightarrow> FluentArgs option \<Rightarrow> Error list option \<Rightarrow>
   (Error + string option \<times> Error list option) option" where
  "getMessage n this h msgId args errors =
     (case currentLocale this of
        None \<Rightarrow> Some (Inr (None, errors))
      | Some l \<Rightarrow> getMessageByLocale n this h msgId (toString l) args errors)"

text \<open>\<^verbatim>\<open>_hasMessageByLocale\<close> (lines 308 to 331) and its \<^verbatim>\<open>for\<close> loop.\<close>

fun hasMessageByLocale :: "nat \<Rightarrow> FluentBox \<Rightarrow> Heap \<Rightarrow> string \<Rightarrow> string \<Rightarrow> bool option"
  and hasMessageByLocale_for :: "nat \<Rightarrow> FluentBox \<Rightarrow> Heap \<Rightarrow> string \<Rightarrow> string list \<Rightarrow> bool option" where
  "hasMessageByLocale 0 this h msgId locale = None"
| "hasMessageByLocale (Suc n) this h msgId locale =
     (case (case maps h (assets this) locale of
              None \<Rightarrow> None
            | Some bundle \<Rightarrow> b_getMessage bundle msgId) of
        Some msg \<Rightarrow> Some True
      | None \<Rightarrow>
          (case (case fallbacks this locale of
                   None \<Rightarrow> Some False
                 | Some fls \<Rightarrow> hasMessageByLocale_for n this h msgId fls) of
             None \<Rightarrow> None
           | Some True \<Rightarrow> Some True
           | Some False \<Rightarrow>
               (case defaultLocale this of
                  None \<Rightarrow> Some False
                | Some d \<Rightarrow>
                    if toLowerCase locale \<noteq> toLowerCase (toString d)
                    then hasMessageByLocale n this h msgId (toString d)
                    else Some False)))"
| "hasMessageByLocale_for n this h msgId [] = Some False"
| "hasMessageByLocale_for n this h msgId (fl # rest) =
     (case hasMessageByLocale n this h msgId fl of
        None \<Rightarrow> None
      | Some True \<Rightarrow> Some True
      | Some False \<Rightarrow> hasMessageByLocale_for n this h msgId rest)"

definition hasMessage :: "nat \<Rightarrow> FluentBox \<Rightarrow> Heap \<Rightarrow> string \<Rightarrow> bool option" where
  "hasMessage n this h msgId =
     (case currentLocale this of
        Some l \<Rightarrow> hasMessageByLocale n this h msgId (toString l)
      | None \<Rightarrow> Some False)"

subsection \<open>Notions used to state the properties\<close>

text \<open>The asset table as one handle sees it.\<close>

definition assetTable :: "FluentBox \<Rightarrow> Heap \<Rightarrow> (string \<rightharpoonup> FluentBundle)" where
  "assetTable this h = maps h (assets this)"

text \<open>
  What a call of \<^verbatim>\<open>getMessage\<close> shows about the message: it was found when the call
  returns a string, and when the call throws, since only the formatting of a message that
  was found throws.
\<close>

definition messageFound :: "Error + string option \<times> Error list option \<Rightarrow> bool" where
  "messageFound r = (case r of Inl e \<Rightarrow> True | Inr (res, errors') \<Rightarrow> res \<noteq> None)"

text \<open>
  The message that the asset table defines for an identifier under one locale, with the
  bundle it is in: the test of lines 271 to 274 and of lines 309 to 312.
\<close>

definition ownMessage :: "FluentBox \<Rightarrow> Heap \<Rightarrow> string \<Rightarrow> string \<Rightarrow> (FluentBundle \<times> Message) option" where
  "ownMessage this h locale msgId =
     (case maps h (assets this) locale of
        None \<Rightarrow> None
      | Some bundle \<Rightarrow>
          (case b_getMessage bundle msgId of
             None \<Rightarrow> None
           | Some msg \<Rightarrow> Some (bundle, msg)))"

text \<open>A locale without fallbacks: no entry in the fallback map, or an empty list.\<close>

definition noFallbacks :: "FluentBox \<Rightarrow> string \<Rightarrow> bool" where
  "noFallbacks this locale = (fallbacks this locale = None \<or> fallbacks this locale = Some [])"

text \<open>
  What a list of initializers makes of one bundle, without the store: the reference
  against which \<open>runInitializers\<close> is compared.
\<close>

fun applyInitializers :: "BundleInitializer list \<Rightarrow> Locale \<Rightarrow> FluentBundle \<Rightarrow> Error + FluentBundle" where
  "applyInitializers [] newLocale b = Inr b"
| "applyInitializers (bundleInit # rest) newLocale b =
     (case onBundle bundleInit newLocale b of
        Inl e \<Rightarrow> Inl e
      | Inr b' \<Rightarrow> applyInitializers rest newLocale b')"

subsection \<open>A concrete configuration\<close>

text \<open>
  The values on which the model is run below. The general properties take the
  canonicalisation of \<^verbatim>\<open>Intl.Locale\<close> as a parameter; \<open>canonLangRegion\<close> stands for it
  on the tags that the concrete configuration uses (\<^verbatim>\<open>en-us\<close>, \<^verbatim>\<open>pt-BR\<close>, \<^verbatim>\<open>pt\<close>,
  \<^verbatim>\<open>en\<close>), where it gives what \<^verbatim>\<open>new Intl.Locale(s).toString()\<close> gives. It handles a
  language of two or three letters and, optionally, a region of two letters, by case alone
  (language in lower case, region in upper case): it replaces no alias, and it rejects the
  tags with a script, a numeric region, a variant or an extension, which \<^verbatim>\<open>Intl.Locale\<close>
  accepts. It is run on no such tag.
\<close>

definition upperChar :: "char \<Rightarrow> char" where
  "upperChar c =
     (case map_of (zip ''abcdefghijklmnopqrstuvwxyz'' ''ABCDEFGHIJKLMNOPQRSTUVWXYZ'') c of
        None \<Rightarrow> c
      | Some d \<Rightarrow> d)"

definition isAlpha :: "char \<Rightarrow> bool" where
  "isAlpha c = (c \<in> set ''abcdefghijklmnopqrstuvwxyzABCDEFGHIJKLMNOPQRSTUVWXYZ'')"

definition canonLangRegion :: Canon where
  "canonLangRegion s =
     (let lang = takeWhile (\<lambda>c. c \<noteq> CHR ''-'') s;
          rest = dropWhile (\<lambda>c. c \<noteq> CHR ''-'') s
      in if \<not> (length lang \<in> {2, 3} \<and> list_all isAlpha lang) then None
         else if rest = [] then Some (toLowerCase lang)
         else if length rest = 3 \<and> list_all isAlpha (tl rest)
              then Some (toLowerCase lang @ ''-'' @ map upperChar (tl rest))
         else None)"

definition emptyHeap :: Heap where
  "emptyHeap = \<lparr>maps = (\<lambda>a. Map.empty), arrays = (\<lambda>a. []), nextId = 0\<rparr>"

text \<open>
  \<^verbatim>\<open>new FluentBox({ locales: ["en-us", "pt-BR", "pt", "en"],
    fallbacks: { "pt-BR": ["pt", "en"], "pt": ["en"] }, defaultLocale: "en-us",
    source: "res/lang", files: ["main"], clean: true, method: "http" })\<close>
  and the object it builds.
\<close>

definition exOptions :: FluentBoxOptions where
  "exOptions =
     \<lparr>opt_locales = [''en-us'', ''pt-BR'', ''pt'', ''en''],
      opt_fallbacks = Some [(''pt-BR'', [''pt'', ''en'']), (''pt'', [''en''])],
      opt_defaultLocale = ''en-us'',
      opt_source = ''res/lang'',
      opt_files = [''main''],
      opt_clean = True,
      opt_method = http\<rparr>"

definition exBox :: FluentBox where
  "exBox =
     \<lparr>currentLocale = None,
      localeToPathComponents =
        [''en-US'' \<mapsto> ''en-us'', ''pt-BR'' \<mapsto> ''pt-BR'', ''pt'' \<mapsto> ''pt'', ''en'' \<mapsto> ''en''],
      locales = {''en-US'', ''pt-BR'', ''pt'', ''en''},
      defaultLocale = Some \<lparr>oid = 11, toString = ''en-US''\<rparr>,
      fallbacks = [''pt-BR'' \<mapsto> [''pt'', ''en''], ''pt'' \<mapsto> [''en'']],
      assets = 0,
      source = ''res/lang'',
      files = [''main''],
      bundleInitializers = 1,
      clean = True,
      the_method = http\<rparr>"

text \<open>
  A bundle given by the list of its messages, whose formatter returns the pattern as it
  is, and a backend given by the table of the bundles it can build.
\<close>

definition mkBundle :: "(string \<times> Pattern option) list \<Rightarrow> FluentBundle" where
  "mkBundle ms =
     \<lparr>b_getMessage = (\<lambda>i. map_option (\<lambda>v. \<lparr>mvalue = v\<rparr>) (map_of ms i)),
      b_formatPattern = (\<lambda>pattern args. (pattern, []))\<rparr>"

definition tableLoader ::
  "(string \<rightharpoonup> FluentBundle) \<Rightarrow> FluentBox \<Rightarrow> Locale \<Rightarrow> string \<Rightarrow> Error + string \<times> FluentBundle" where
  "tableLoader t self locale localeAsStr =
     (case t localeAsStr of
        None \<Rightarrow> Inl (Failure localeAsStr)
      | Some b \<Rightarrow> Inr (localeAsStr, b))"

definition exLoaders :: "(string \<rightharpoonup> FluentBundle) \<Rightarrow> Loaders" where
  "exLoaders t = \<lparr>fsloader = tableLoader t, httpLoader = tableLoader t\<rparr>"

text \<open>
  The bundles a backend can build, the locale object \<^verbatim>\<open>new Intl.Locale("pt-BR")\<close> of
  a caller, and the store in which the constructor above has run and that object exists.
\<close>

definition bundlePtBR :: FluentBundle where
  "bundlePtBR = mkBundle [(''greeting'', Some ''Oi''), (''title'', None)]"

definition bundlePt :: FluentBundle where
  "bundlePt = mkBundle [(''greeting'', Some ''Ola''), (''farewell'', Some ''Adeus'')]"

definition bundleEn :: FluentBundle where
  "bundleEn = mkBundle [(''greeting'', Some ''Hello''), (''thanks'', Some ''Thanks'')]"

definition bundleEnUS :: FluentBundle where
  "bundleEnUS = mkBundle [(''color'', Some ''color'')]"

definition exBackend :: "string \<rightharpoonup> FluentBundle" where
  "exBackend =
     [''pt-BR'' \<mapsto> bundlePtBR, ''pt'' \<mapsto> bundlePt, ''en'' \<mapsto> bundleEn, ''en-US'' \<mapsto> bundleEnUS]"

definition ptBR :: Locale where
  "ptBR = \<lparr>oid = 12, toString = ''pt-BR''\<rparr>"

definition exHeap :: Heap where
  "exHeap = emptyHeap\<lparr>nextId := 13\<rparr>"

text \<open>
  The handle and its asset table after \<^verbatim>\<open>load(new Intl.Locale("pt-BR"))\<close> has resolved
  to \<^verbatim>\<open>true\<close> with that backend.
\<close>

definition loadedBox :: FluentBox where
  "loadedBox = exBox\<lparr>currentLocale := Some ptBR\<rparr>"

definition loadedTable :: "string \<rightharpoonup> FluentBundle" where
  "loadedTable = [''pt-BR'' \<mapsto> bundlePtBR, ''pt'' \<mapsto> bundlePt, ''en'' \<mapsto> bundleEn]"

definition loadedHeap :: Heap where
  "loadedHeap = exHeap\<lparr>maps := (maps exHeap)(0 := loadedTable), nextId := 16\<rparr>"

text \<open>The store after \<^verbatim>\<open>clone()\<close> has been called on the handle in \<open>exHeap\<close>.\<close>

definition clonedHeap :: Heap where
  "clonedHeap =
     exHeap\<lparr>maps := (maps exHeap)(13 := Map.empty), arrays := (arrays exHeap)(14 := []),
            nextId := 15\<rparr>"

text \<open>
  A handle with the chain of fallbacks \<^verbatim>\<open>pt-BR\<close>, \<^verbatim>\<open>pt\<close>, \<^verbatim>\<open>es\<close> and the default
  locale \<^verbatim>\<open>en\<close>, whose current locale is \<^verbatim>\<open>pt-BR\<close>, and a store in which its asset
  table holds a bundle for each of the four (the accumulate policy, after \<^verbatim>\<open>en\<close> and
  then \<^verbatim>\<open>pt-BR\<close> have been loaded).
\<close>

definition chainBox :: FluentBox where
  "chainBox =
     \<lparr>currentLocale = Some ptBR,
      localeToPathComponents =
        [''pt-BR'' \<mapsto> ''pt-BR'', ''pt'' \<mapsto> ''pt'', ''es'' \<mapsto> ''es'', ''en'' \<mapsto> ''en''],
      locales = {''pt-BR'', ''pt'', ''es'', ''en''},
      defaultLocale = Some \<lparr>oid = 9, toString = ''en''\<rparr>,
      fallbacks = [''pt-BR'' \<mapsto> [''pt''], ''pt'' \<mapsto> [''es'']],
      assets = 0,
      source = ''res/lang'',
      files = [''main''],
      bundleInitializers = 1,
      clean = False,
      the_method = http\<rparr>"

definition chainHeap :: Heap where
  "chainHeap =
     \<lparr>maps = (\<lambda>a. Map.empty)
        (0 := [''pt-BR'' \<mapsto> mkBundle [(''greeting'', Some ''Oi'')],
               ''pt'' \<mapsto> mkBundle [(''greeting'', Some ''Ola'')],
               ''es'' \<mapsto> mkBundle [(''greeting'', Some ''Hola''), (''farewell'', Some ''Adios'')],
               ''en'' \<mapsto> mkBundle [(''greeting'', Some ''Hello''), (''thanks'', Some ''Thanks'')]]),
      arrays = (\<lambda>a. []),
      nextId = 16\<rparr>"

text \<open>
  A bundle with the message \<^verbatim>\<open>hello = Hello, { $name }!\<close>, whose formatter reports the
  unknown variable when no value for \<^verbatim>\<open>name\<close> is given and puts \<^verbatim>\<open>{$name}\<close> in its
  place (the texts are those of a bundle built with \<^verbatim>\<open>useIsolating: false\<close>, so without
  the directional marks around a placeable); the handle with the current
  locale \<^verbatim>\<open>en\<close> whose asset table holds that bundle for \<^verbatim>\<open>en\<close>; and the chain of
  fallbacks above with that bundle for \<^verbatim>\<open>es\<close>.
\<close>

definition bundleHello :: FluentBundle where
  "bundleHello =
     \<lparr>b_getMessage = (\<lambda>i. if i = ''hello'' then Some \<lparr>mvalue = Some ''Hello, { $name }!''\<rparr> else None),
      b_formatPattern = (\<lambda>pattern args.
        case (case args of None \<Rightarrow> None | Some as \<Rightarrow> map_of as ''name'') of
          None \<Rightarrow> (''Hello, {$name}!'', [ReferenceError ''Unknown variable: $name''])
        | Some v \<Rightarrow> (''Hello, '' @ v @ ''!'', []))\<rparr>"

definition helloBox :: FluentBox where
  "helloBox = exBox\<lparr>currentLocale := Some \<lparr>oid = 12, toString = ''en''\<rparr>\<rparr>"

definition helloHeap :: Heap where
  "helloHeap = exHeap\<lparr>maps := (maps exHeap)(0 := [''en'' \<mapsto> bundleHello])\<rparr>"

definition chainHelloHeap :: Heap where
  "chainHelloHeap = chainHeap\<lparr>maps := (maps chainHeap)(0 := (maps chainHeap 0)(''es'' \<mapsto> bundleHello))\<rparr>"

section \<open>Properties\<close>

subsection \<open>The concrete configuration\<close>

lemma canon_en_us: "canonLangRegion ''en-us'' = Some ''en-US''"
  by (simp add: canonLangRegion_def isAlpha_def upperChar_def toLowerCase_def lowerChar_def)

lemma canon_pt_BR: "canonLangRegion ''pt-BR'' = Some ''pt-BR''"
  by (simp add: canonLangRegion_def isAlpha_def upperChar_def toLowerCase_def lowerChar_def)

lemma canon_pt: "canonLangRegion ''pt'' = Some ''pt''"
  by (simp add: canonLangRegion_def isAlpha_def upperChar_def toLowerCase_def lowerChar_def)

lemma canon_en: "canonLangRegion ''en'' = Some ''en''"
  by (simp add: canonLangRegion_def isAlpha_def upperChar_def toLowerCase_def lowerChar_def)

lemma FluentBox_new_exOptions:
  "FluentBox_new canonLangRegion emptyHeap exOptions = Inr (exBox, emptyHeap\<lparr>nextId := 12\<rparr>)"
  apply (simp add: FluentBox_new_def exOptions_def emptyHeap_def parseLocaleOrThrow_def
      new_Locale_def canon_en_us canon_pt_BR canon_pt canon_en exBox_def Let_def)
  apply (auto simp: fun_eq_iff)
  done

lemma exBox_fields:
  "clean exBox" "assets exBox = 0" "bundleInitializers exBox = 1" "currentLocale exBox = None"
  "supportsLocale exBox (LocaleObj ptBR)" "toString ptBR = ''pt-BR''"
  by (simp_all add: exBox_def supportsLocale_def ptBR_def)

lemma exHeap_fields: "nextId exHeap = 13" "arrays exHeap a = []" "maps exHeap a = Map.empty"
  by (simp_all add: exHeap_def emptyHeap_def)

lemma clonedHeap_fields: "12 < nextId clonedHeap" "arrays clonedHeap 1 = []"
  by (simp_all add: clonedHeap_def exHeap_fields)

lemma clone_exBox: "clone exBox exHeap = (exBox, clonedHeap)"
  by (simp add: clone_def Let_def exBox_def clonedHeap_def exHeap_fields)

lemma loadSingle_exBox:
  "loadSingleLocale (exLoaders t) exBox l =
     (case t (toString l) of None \<Rightarrow> Inl (Failure (toString l)) | Some b \<Rightarrow> Inr (toString l, b))"
  by (simp add: loadSingleLocale_def exLoaders_def tableLoader_def exBox_def Let_def)

lemma enumerate_exBox:
  "12 < nextId h \<Longrightarrow>
   enumerateFallbacksToSet (Suc (Suc (Suc n))) canonLangRegion exBox ''pt-BR'' ([ptBR], h) =
     Some (Inr ([ptBR, \<lparr>oid = nextId h, toString = ''pt''\<rparr>,
                 \<lparr>oid = Suc (nextId h), toString = ''en''\<rparr>,
                 \<lparr>oid = Suc (Suc (nextId h)), toString = ''en''\<rparr>],
                h\<lparr>nextId := Suc (Suc (Suc (nextId h)))\<rparr>))"
  by (simp add: exBox_def ptBR_def new_Locale_def canon_pt canon_en Set_add_def)

subsection \<open>The constructor and supportsLocale\<close>

text \<open>
  The set of supported locales that the constructor builds is the set of the canonical
  forms of the declared locales, and a locale object is supported exactly when its
  identifier is one of them.
\<close>

lemma parseLocaleOrThrow_tag:
  "parseLocaleOrThrow canon h s = Inr (l, h') \<Longrightarrow> canon s = Some (toString l)"
  by (auto simp: parseLocaleOrThrow_def new_Locale_def split: option.splits sum.splits)

lemma ctor_locales_set:
  "ctor_locales canon xs (ptc, ls, h) = Inr (ptc', ls', h') \<Longrightarrow>
     ls' = ls \<union> {t. \<exists>s\<in>set xs. canon s = Some t}"
proof (induction xs arbitrary: ptc ls h)
  case Nil
  then show ?case by simp
next
  case (Cons x xs)
  from Cons.prems obtain l h1 where p: "parseLocaleOrThrow canon h x = Inr (l, h1)"
    by (auto split: sum.splits)
  have "ctor_locales canon xs (ptc(toString l \<mapsto> x), insert (toString l) ls, h1) = Inr (ptc', ls', h')"
    using Cons.prems p by simp
  from Cons.IH [OF this] parseLocaleOrThrow_tag [OF p] show ?case by auto
qed

lemma FluentBox_new_locales:
  assumes "FluentBox_new canon h0 options = Inr (b, h)"
  shows "locales b = {t. \<exists>s\<in>set (opt_locales options). canon s = Some t}"
proof -
  let ?h = "h0\<lparr>maps := (maps h0)(nextId h0 := Map.empty),
               arrays := (arrays h0)(Suc (nextId h0) := []),
               nextId := Suc (Suc (nextId h0))\<rparr>"
  from assms obtain ptc ls h1 where
    c: "ctor_locales canon (opt_locales options) (Map.empty, {}, ?h) = Inr (ptc, ls, h1)"
    and l: "locales b = ls"
    by (auto simp: FluentBox_new_def Let_def split: sum.splits)
  show ?thesis using ctor_locales_set [OF c] l by simp
qed

lemma supportsLocale_object:
  "FluentBox_new canon h0 options = Inr (b, h) \<Longrightarrow>
     supportsLocale b (LocaleObj l) = (\<exists>s\<in>set (opt_locales options). canon s = Some (toString l))"
  by (simp add: supportsLocale_def FluentBox_new_locales)

text \<open>
  C5. \<^verbatim>\<open>supportsLocale\<close> looks its argument's \<^verbatim>\<open>toString()\<close> up in the set of
  canonical identifiers and does not parse a string argument. The box built from the
  locales \<^verbatim>\<open>["en-us", "pt-BR", "pt", "en"]\<close> supports the string \<^verbatim>\<open>"en-US"\<close> and does
  not support the string \<^verbatim>\<open>"en-us"\<close>, the spelling it was declared with, whose canonical
  form is \<^verbatim>\<open>"en-US"\<close>: for a string argument, "supported if and only if the canonical
  form is among the canonical forms of the declared locales" fails.
\<close>

theorem supportsLocale_string_argument:
  "FluentBox_new canonLangRegion emptyHeap exOptions = Inr (exBox, emptyHeap\<lparr>nextId := 12\<rparr>) \<and>
   ''en-us'' \<in> set (opt_locales exOptions) \<and>
   canonLangRegion ''en-us'' = Some ''en-US'' \<and>
   supportsLocale exBox (LocaleStr ''en-US'') \<and>
   \<not> supportsLocale exBox (LocaleStr ''en-us'')"
  using FluentBox_new_exOptions
  by (simp add: canon_en_us supportsLocale_def exBox_def exOptions_def)

subsection \<open>The traversal, the batch and the commit\<close>

text \<open>
  The traversal of the fallbacks allocates locale objects and touches no map and no
  array of the store.
\<close>

lemma new_Locale_heap:
  "new_Locale canon h s = Inr (l, h') \<Longrightarrow> maps h' = maps h \<and> arrays h' = arrays h"
  by (auto simp: new_Locale_def split: option.splits)

lemma enumerateFallbacksToSet_heap:
  "enumerateFallbacksToSet n canon bx loc st = Some (Inr st') \<Longrightarrow>
     maps (snd st') = maps (snd st) \<and> arrays (snd st') = arrays (snd st)"
  "enumerateFallbacksToSet_for n canon bx items st = Some (Inr st') \<Longrightarrow>
     maps (snd st') = maps (snd st) \<and> arrays (snd st') = arrays (snd st)"
proof (induction n canon bx loc st and n canon bx items st arbitrary: st' and st'
    rule: enumerateFallbacksToSet_enumerateFallbacksToSet_for.induct)
  case (1 canon bx loc st)
  then show ?case by simp
next
  case (2 n canon bx loc st)
  then show ?case by (auto split: option.splits)
next
  case (3 n canon bx st)
  then show ?case by simp
next
  case (4 n canon bx item rest out h)
  from "4.prems" obtain l h1 where nl: "new_Locale canon h item = Inr (l, h1)"
    by (auto split: sum.splits)
  from "4.prems" nl obtain st1 where
    e1: "enumerateFallbacksToSet n canon bx item (Set_add l out, h1) = Some (Inr st1)"
    by (auto split: option.splits sum.splits)
  from "4.prems" nl e1 have e2: "enumerateFallbacksToSet_for n canon bx rest st1 = Some (Inr st')"
    by simp
  have a: "maps (snd st1) = maps h1 \<and> arrays (snd st1) = arrays h1"
    using "4.IH"(1)[OF nl refl e1] by simp
  have b: "maps (snd st') = maps (snd st1) \<and> arrays (snd st') = arrays (snd st1)"
    using "4.IH"(2)[OF nl refl e1 refl e2] .
  show ?case using a b new_Locale_heap[OF nl] by simp
qed

lemma Promise_all_Inl:
  "Inl e \<in> set ps \<Longrightarrow> \<exists>e'. Promise_all ps = Inl e'"
  by (induction ps rule: Promise_all.induct) (auto split: sum.splits)

lemma Promise_all_fails:
  "a \<in> set toLoad \<Longrightarrow> f a = Inl e \<Longrightarrow> \<exists>e'. Promise_all (map f toLoad) = Inl e'"
  by (rule Promise_all_Inl [of e]) force

text \<open>
  The loop of \<^verbatim>\<open>set\<close> calls adds the pairs to the table, a later pair winning over an
  earlier one with the same key; and the loop of the initializers does to the entry of the
  new locale what \<open>applyInitializers\<close> does to its bundle.
\<close>

lemma setPairs_map_of: "setPairs res m = m ++ map_of (rev res)"
  by (induction res arbitrary: m) (auto simp: map_add_def fun_eq_iff split: option.splits)

lemma runInitializers_apply:
  "maps h a (toString l) = Some b0 \<Longrightarrow> applyInitializers inits l b0 = Inr b1 \<Longrightarrow>
   runInitializers inits l a h = Inr (h\<lparr>maps := (maps h)(a := (maps h a)(toString l \<mapsto> b1))\<rparr>)"
proof (induction inits arbitrary: h b0)
  case Nil
  then have "(maps h a)(toString l \<mapsto> b1) = maps h a" by (auto simp: fun_eq_iff)
  then show ?case by simp
next
  case (Cons bundleInit rest)
  from Cons.prems obtain b' where i: "onBundle bundleInit l b0 = Inr b'"
    and r: "applyInitializers rest l b' = Inr b1"
    by (auto split: sum.splits)
  let ?h = "h\<lparr>maps := (maps h)(a := (maps h a)(toString l \<mapsto> b'))\<rparr>"
  have "runInitializers rest l a ?h = Inr (?h\<lparr>maps := (maps ?h)(a := (maps ?h a)(toString l \<mapsto> b1))\<rparr>)"
    by (rule Cons.IH [OF _ r]) simp
  moreover have "?h\<lparr>maps := (maps ?h)(a := (maps ?h a)(toString l \<mapsto> b1))\<rparr> =
      h\<lparr>maps := (maps h)(a := (maps h a)(toString l \<mapsto> b1))\<rparr>"
    by simp
  ultimately have "runInitializers rest l a ?h =
      Inr (h\<lparr>maps := (maps h)(a := (maps h a)(toString l \<mapsto> b1))\<rparr>)"
    by (simp only:)
  then show ?case using Cons.prems(1) i by (simp del: fun_upd_apply)
qed

lemma runInitializers_frame:
  "(case runInitializers inits l a h of Inl (e, h') \<Rightarrow> h' | Inr h' \<Rightarrow> h') = h' \<Longrightarrow>
   arrays h' = arrays h \<and> nextId h' = nextId h \<and> (\<forall>a'. a' \<noteq> a \<longrightarrow> maps h' a' = maps h a')"
proof (induction inits arbitrary: h)
  case Nil
  then show ?case by simp
next
  case (Cons bundleInit rest)
  show ?case
  proof (cases "maps h a (toString l)")
    case None
    show ?thesis
    proof (cases "onUndefined bundleInit l")
      case uNone: None
      have "(case runInitializers rest l a h of Inl (e, h') \<Rightarrow> h' | Inr h' \<Rightarrow> h') = h'"
        using Cons.prems None uNone by simp
      from Cons.IH [OF this] show ?thesis .
    next
      case (Some e)
      then show ?thesis using Cons.prems None by simp
    qed
  next
    case (Some b)
    show ?thesis
    proof (cases "onBundle bundleInit l b")
      case (Inl e)
      then show ?thesis using Cons.prems Some by simp
    next
      case (Inr b')
      let ?h = "h\<lparr>maps := (maps h)(a := (maps h a)(toString l \<mapsto> b'))\<rparr>"
      have "(case runInitializers rest l a ?h of Inl (e, h') \<Rightarrow> h' | Inr h' \<Rightarrow> h') = h'"
        using Cons.prems Some Inr by simp
      from Cons.IH [OF this] show ?thesis by simp
    qed
  qed
qed

lemma commit_frame:
  "commit self h newLocale res = (out, self', h') \<Longrightarrow>
   self' = self\<lparr>currentLocale := Some newLocale\<rparr> \<and> arrays h' = arrays h \<and> nextId h' = nextId h \<and>
   (\<forall>a. a \<noteq> assets self \<longrightarrow> maps h' a = maps h a)"
proof -
  assume c: "commit self h newLocale res = (out, self', h')"
  let ?h1 = "h\<lparr>maps := (maps h)(assets self := setPairs res (if clean self then Map.empty else maps h (assets self)))\<rparr>"
  let ?r = "runInitializers (arrays ?h1 (bundleInitializers self)) newLocale (assets self) ?h1"
  have h': "(case ?r of Inl (e, h') \<Rightarrow> h' | Inr h' \<Rightarrow> h') = h'"
    using c by (auto simp: commit_def Let_def split: sum.splits prod.splits)
  have s: "self' = self\<lparr>currentLocale := Some newLocale\<rparr>"
    using c by (auto simp: commit_def Let_def split: sum.splits prod.splits)
  show ?thesis using runInitializers_frame [OF h'] s by simp
qed

lemma load_cases:
  assumes L: "load n canon ld self h newLocale0 = Some r"
  shows "(boxAfter r = self \<and> outcome r \<noteq> Resolved True \<or>
          (\<exists>l. (case newLocale0 of None \<Rightarrow> defaultLocale self | Some l \<Rightarrow> Some l) = Some l \<and>
               boxAfter r = self\<lparr>currentLocale := Some l\<rparr>)) \<and>
         arrays (heapAfter r) = arrays h \<and>
         (\<forall>a. a \<noteq> assets self \<longrightarrow> maps (heapAfter r) a = maps h a)"
proof (cases "case newLocale0 of None \<Rightarrow> defaultLocale self | Some l \<Rightarrow> Some l")
  case None
  then show ?thesis using L by (auto simp: load_def)
next
  case (Some newLocale)
  show ?thesis
  proof (cases "supportsLocale self (LocaleObj newLocale)")
    case False
    then show ?thesis using L Some by (auto simp: load_def)
  next
    case True
    show ?thesis
    proof (cases "enumerateFallbacksToSet n canon self (toString newLocale) ([newLocale], h)")
      case None
      then show ?thesis using L Some True by (simp add: load_def)
    next
      case enum: (Some x)
      show ?thesis
      proof (cases x)
        case (Inl e)
        then show ?thesis using L Some True enum by (auto simp: load_def)
      next
        case (Inr st)
        obtain toLoad h' where st: "st = (toLoad, h')" by (cases st)
        have hp: "maps h' = maps h" "arrays h' = arrays h"
          using enumerateFallbacksToSet_heap(1) [of n canon self "toString newLocale" "([newLocale], h)" st]
            enum Inr st by simp_all
        show ?thesis
        proof (cases "Promise_all (map (loadSingleLocale ld self) toLoad)")
          case pa: (Inl e)
          have "r = \<lparr>outcome = Resolved False, boxAfter = self, heapAfter = h',
                     fetched = map toString toLoad\<rparr>"
            using L Some True enum Inr st pa by (simp add: load_def)
          then show ?thesis using hp by simp
        next
          case pa: (Inr res)
          obtain out self' h'' where com: "commit self h' newLocale res = (out, self', h'')"
            by (cases "commit self h' newLocale res")
          have "r = \<lparr>outcome = out, boxAfter = self', heapAfter = h'',
                     fetched = map toString toLoad\<rparr>"
            using L Some True enum Inr st pa com by (simp add: load_def)
          then show ?thesis using commit_frame [OF com] hp Some by simp
        qed
      qed
    qed
  qed
qed

text \<open>
  \<^verbatim>\<open>load(new Intl.Locale("pt-BR"))\<close> on the concrete handle, with the backend
  \<open>exBackend\<close>, in any store where the caller's locale object exists and no initializer
  is registered.
\<close>

lemma load_exBox:
  assumes "12 < nextId h" "arrays h 1 = []"
  shows "load (Suc (Suc (Suc n))) canonLangRegion (exLoaders exBackend) exBox h (Some ptBR) =
     Some \<lparr>outcome = Resolved True, boxAfter = loadedBox,
           heapAfter = h\<lparr>maps := (maps h)(0 := loadedTable), nextId := Suc (Suc (Suc (nextId h)))\<rparr>,
           fetched = [''pt-BR'', ''pt'', ''en'', ''en'']\<rparr>"
proof -
  let ?toLoad = "[ptBR, \<lparr>oid = nextId h, toString = ''pt''\<rparr>,
                 \<lparr>oid = Suc (nextId h), toString = ''en''\<rparr>,
                 \<lparr>oid = Suc (Suc (nextId h)), toString = ''en''\<rparr>]"
  let ?h' = "h\<lparr>nextId := Suc (Suc (Suc (nextId h)))\<rparr>"
  let ?res = "[(''pt-BR'', bundlePtBR), (''pt'', bundlePt), (''en'', bundleEn), (''en'', bundleEn)]"
  have enum: "enumerateFallbacksToSet (Suc (Suc (Suc n))) canonLangRegion exBox (toString ptBR) ([ptBR], h) =
      Some (Inr (?toLoad, ?h'))"
    using enumerate_exBox [OF assms(1), of n] by (simp add: ptBR_def)
  have pa: "Promise_all (map (loadSingleLocale (exLoaders exBackend) exBox) ?toLoad) = Inr ?res"
    by (simp add: loadSingle_exBox exBackend_def ptBR_def)
  have tbl: "setPairs ?res Map.empty = loadedTable"
    by (auto simp: loadedTable_def fun_eq_iff)
  have com: "commit exBox ?h' ptBR ?res =
      (Resolved True, loadedBox, h\<lparr>maps := (maps h)(0 := loadedTable), nextId := Suc (Suc (Suc (nextId h)))\<rparr>)"
    unfolding commit_def Let_def tbl using assms(2)
    by (simp add: exBox_fields loadedBox_def loadedTable_def)
  show ?thesis
    unfolding load_def using enum pa com
    by (simp add: exBox_fields del: enumerateFallbacksToSet.simps)
qed

text \<open>
  The depth bound only cuts: a traversal that ends within depth \<open>n\<close> gives the same
  result within every greater depth, and so does \<^verbatim>\<open>load\<close>.
\<close>

lemma enumerateFallbacksToSet_mono:
  "enumerateFallbacksToSet n canon bx loc st = Some r \<Longrightarrow>
     enumerateFallbacksToSet (Suc n) canon bx loc st = Some r"
  "enumerateFallbacksToSet_for n canon bx items st = Some r \<Longrightarrow>
     enumerateFallbacksToSet_for (Suc n) canon bx items st = Some r"
proof (induction n canon bx loc st and n canon bx items st arbitrary: r and r
    rule: enumerateFallbacksToSet_enumerateFallbacksToSet_for.induct)
  case (1 canon bx loc st)
  then show ?case by simp
next
  case (2 n canon bx loc st)
  show ?case
  proof (cases "fallbacks bx loc")
    case None
    then show ?thesis using "2.prems" by simp
  next
    case (Some items)
    then have "enumerateFallbacksToSet_for n canon bx items st = Some r"
      using "2.prems" by simp
    from "2.IH" [OF Some this] Some show ?thesis
      by (simp del: enumerateFallbacksToSet_for.simps)
  qed
next
  case (3 n canon bx st)
  then show ?case by simp
next
  case (4 n canon bx item rest out h)
  show ?case
  proof (cases "new_Locale canon h item")
    case (Inl e)
    then show ?thesis using "4.prems" by simp
  next
    case (Inr p)
    obtain l h1 where p: "p = (l, h1)" by (cases p)
    obtain q where q: "enumerateFallbacksToSet n canon bx item (Set_add l out, h1) = Some q"
      using "4.prems" Inr p
      by (cases "enumerateFallbacksToSet n canon bx item (Set_add l out, h1)") auto
    have q': "enumerateFallbacksToSet (Suc n) canon bx item (Set_add l out, h1) = Some q"
      using "4.IH"(1) [OF _ refl q] Inr p by simp
    show ?thesis
    proof (cases q)
      case qInl: (Inl e)
      have "r = Inl e" using "4.prems" Inr p q qInl by simp
      then show ?thesis
        using Inr p q' qInl by (simp del: enumerateFallbacksToSet.simps)
    next
      case qInr: (Inr st1)
      have "enumerateFallbacksToSet_for n canon bx rest st1 = Some r"
        using "4.prems" Inr p q qInr by simp
      from "4.IH"(2) [OF _ refl q qInr this] Inr p
      have "enumerateFallbacksToSet_for (Suc n) canon bx rest st1 = Some r" by simp
      then show ?thesis
        using Inr p q' qInr by (simp del: enumerateFallbacksToSet.simps)
    qed
  qed
qed

lemma load_mono:
  "load n canon ld self h newLocale0 = Some r \<Longrightarrow> load (Suc n) canon ld self h newLocale0 = Some r"
proof -
  assume L: "load n canon ld self h newLocale0 = Some r"
  show ?thesis
  proof (cases "case newLocale0 of None \<Rightarrow> defaultLocale self | Some l \<Rightarrow> Some l")
    case None
    then show ?thesis using L by (simp add: load_def)
  next
    case (Some newLocale)
    show ?thesis
    proof (cases "supportsLocale self (LocaleObj newLocale)")
      case False
      then show ?thesis using L Some by (simp add: load_def)
    next
      case True
      obtain x where x: "enumerateFallbacksToSet n canon self (toString newLocale) ([newLocale], h) = Some x"
        using L Some True
        by (cases "enumerateFallbacksToSet n canon self (toString newLocale) ([newLocale], h)")
          (auto simp: load_def)
      show ?thesis
        using L Some True x enumerateFallbacksToSet_mono(1) [OF x]
        by (simp add: load_def del: enumerateFallbacksToSet.simps)
    qed
  qed
qed

subsection \<open>load\<close>

text \<open>
  C6. For a locale that is not in the set of supported locales, \<^verbatim>\<open>load\<close> throws the
  unsupported-locale error itself, at every depth bound (the traversal has not begun):
  no call of \<^verbatim>\<open>_loadSingleLocale\<close> is made, and the handle and the store, so the asset
  table and the current locale, are the ones before the call.
\<close>

theorem load_unsupported_throws:
  "toString l \<notin> locales self \<Longrightarrow>
   load n canon ld self h (Some l) =
     Some \<lparr>outcome = Threw (UnsupportedLocale (toString l)),
           boxAfter = self, heapAfter = h, fetched = []\<rparr>"
  by (simp add: load_def supportsLocale_def)

theorem load_unsupported_throws_witness:
  "toString \<lparr>oid = 12, toString = ''fr''\<rparr> \<notin> locales exBox \<and>
   load 0 canonLangRegion (exLoaders Map.empty) exBox exHeap (Some \<lparr>oid = 12, toString = ''fr''\<rparr>) =
     Some \<lparr>outcome = Threw (UnsupportedLocale ''fr''),
           boxAfter = exBox, heapAfter = exHeap, fetched = []\<rparr>"
proof -
  have u: "toString \<lparr>oid = 12, toString = ''fr''\<rparr> \<notin> locales exBox"
    by (simp add: exBox_def)
  show ?thesis
    using u load_unsupported_throws [OF u, of 0 canonLangRegion "exLoaders Map.empty" exHeap]
    by simp
qed

text \<open>
  C3. The set \<^verbatim>\<open>toLoad\<close> holds \<^verbatim>\<open>Intl.Locale\<close> objects, and each \<^verbatim>\<open>new Intl.Locale(item)\<close>
  is an object the set does not hold yet, so nothing is ever merged. With the fallbacks
  \<^verbatim>\<open>{ "pt-BR": ["pt", "en"], "pt": ["en"] }\<close>, \<^verbatim>\<open>load(new Intl.Locale("pt-BR"))\<close> calls
  \<^verbatim>\<open>_loadSingleLocale\<close> for \<^verbatim>\<open>en\<close> twice, whatever the backend returns: the batch is
  not the deduplicated closure.
\<close>

theorem load_fetches_twice:
  "map_option fetched
     (load (Suc (Suc (Suc n))) canonLangRegion (exLoaders t) exBox exHeap (Some ptBR)) =
   Some [''pt-BR'', ''pt'', ''en'', ''en'']"
  by (simp add: load_def supportsLocale_def exBox_def exHeap_def ptBR_def emptyHeap_def
      new_Locale_def canon_pt canon_en Set_add_def commit_def split: sum.split prod.split)

text \<open>
  C1. Let \<^verbatim>\<open>load\<close> be called with a supported locale (given, or the default one), let
  the traversal of the fallbacks end with the batch \<open>toLoad\<close>, and let the backend reject
  the promise of one locale of the batch. Then \<^verbatim>\<open>load\<close> returns a promise that resolves
  to \<^verbatim>\<open>false\<close> (it neither throws nor rejects), the handle is unchanged, so its current
  locale is, and every map and array of the store, so the asset table, is as before.
\<close>

theorem load_failure_atomic:
  assumes arg: "(case newLocale0 of None \<Rightarrow> defaultLocale self | Some l \<Rightarrow> Some l) = Some newLocale"
    and sup: "supportsLocale self (LocaleObj newLocale)"
    and enum: "enumerateFallbacksToSet n canon self (toString newLocale) ([newLocale], h) =
                 Some (Inr (toLoad, h'))"
    and bad: "a \<in> set toLoad" "loadSingleLocale ld self a = Inl e"
  shows "\<exists>r. load n canon ld self h newLocale0 = Some r \<and>
             outcome r = Resolved False \<and>
             boxAfter r = self \<and>
             get_currentLocale (boxAfter r) = get_currentLocale self \<and>
             assetTable (boxAfter r) (heapAfter r) = assetTable self h \<and>
             maps (heapAfter r) = maps h \<and>
             arrays (heapAfter r) = arrays h \<and>
             fetched r = map toString toLoad"
proof -
  obtain e' where pa: "Promise_all (map (loadSingleLocale ld self) toLoad) = Inl e'"
    using Promise_all_fails [where f = "loadSingleLocale ld self", OF bad] by blast
  have hp: "maps h' = maps h \<and> arrays h' = arrays h"
    using enumerateFallbacksToSet_heap(1) [OF enum] by simp
  have "load n canon ld self h newLocale0 =
      Some \<lparr>outcome = Resolved False, boxAfter = self, heapAfter = h', fetched = map toString toLoad\<rparr>"
    using arg sup enum pa by (simp add: load_def)
  then show ?thesis using hp by (simp add: assetTable_def)
qed

text \<open>
  Witness: the backend has no bundle for \<^verbatim>\<open>en\<close>, one of the fallbacks of \<^verbatim>\<open>pt-BR\<close>.
\<close>

theorem load_failure_atomic_witness:
  "map_option outcome
     (load (Suc (Suc (Suc 0))) canonLangRegion (exLoaders (exBackend(''en'' := None))) exBox exHeap
        (Some ptBR)) = Some (Resolved False) \<and>
   map_option boxAfter
     (load (Suc (Suc (Suc 0))) canonLangRegion (exLoaders (exBackend(''en'' := None))) exBox exHeap
        (Some ptBR)) = Some exBox \<and>
   map_option (\<lambda>r. assetTable (boxAfter r) (heapAfter r))
     (load (Suc (Suc (Suc 0))) canonLangRegion (exLoaders (exBackend(''en'' := None))) exBox exHeap
        (Some ptBR)) = Some (assetTable exBox exHeap) \<and>
   map_option fetched
     (load (Suc (Suc (Suc 0))) canonLangRegion (exLoaders (exBackend(''en'' := None))) exBox exHeap
        (Some ptBR)) = Some [''pt-BR'', ''pt'', ''en'', ''en'']"
proof -
  let ?en = "\<lparr>oid = Suc (nextId exHeap), toString = ''en''\<rparr>"
  let ?toLoad = "[ptBR, \<lparr>oid = nextId exHeap, toString = ''pt''\<rparr>, ?en,
                 \<lparr>oid = Suc (Suc (nextId exHeap)), toString = ''en''\<rparr>]"
  have arg: "(case Some ptBR of None \<Rightarrow> defaultLocale exBox | Some l \<Rightarrow> Some l) = Some ptBR"
    by simp
  have enum: "enumerateFallbacksToSet (Suc (Suc (Suc 0))) canonLangRegion exBox (toString ptBR)
      ([ptBR], exHeap) = Some (Inr (?toLoad, exHeap\<lparr>nextId := Suc (Suc (Suc (nextId exHeap)))\<rparr>))"
    using enumerate_exBox [of exHeap 0] by (simp add: exHeap_fields exBox_fields)
  have mem: "?en \<in> set ?toLoad" by simp
  have bad: "loadSingleLocale (exLoaders (exBackend(''en'' := None))) exBox ?en = Inl (Failure ''en'')"
    by (simp add: loadSingle_exBox)
  obtain r where r: "load (Suc (Suc (Suc 0))) canonLangRegion (exLoaders (exBackend(''en'' := None)))
        exBox exHeap (Some ptBR) = Some r"
      "outcome r = Resolved False" "boxAfter r = exBox"
      "assetTable (boxAfter r) (heapAfter r) = assetTable exBox exHeap"
      "fetched r = map toString ?toLoad"
    using load_failure_atomic [OF arg exBox_fields(5) enum mem bad] by blast
  show ?thesis using r by (simp add: exBox_fields)
qed

text \<open>
  C9. Let every promise of the batch resolve, to the pairs \<open>res\<close>, let the last pair
  for the new locale hold the bundle \<open>b0\<close>, and let the registered initializers turn
  \<open>b0\<close> into \<open>b1\<close> without an exception. Then \<^verbatim>\<open>load\<close> resolves to \<^verbatim>\<open>true\<close> and the
  asset table afterwards is: under the clean policy the entries of the batch and nothing
  else; under the accumulate policy the table before overwritten by the entries of the
  batch, every locale outside the batch keeping its bundle; in both, the entry of the new
  locale being the bundle as the initializers left it.
\<close>

theorem load_success_table:
  assumes arg: "(case newLocale0 of None \<Rightarrow> defaultLocale self | Some l \<Rightarrow> Some l) = Some newLocale"
    and sup: "supportsLocale self (LocaleObj newLocale)"
    and enum: "enumerateFallbacksToSet n canon self (toString newLocale) ([newLocale], h) =
                 Some (Inr (toLoad, h'))"
    and all: "Promise_all (map (loadSingleLocale ld self) toLoad) = Inr res"
    and key: "map_of (rev res) (toString newLocale) = Some b0"
    and inits: "applyInitializers (arrays h (bundleInitializers self)) newLocale b0 = Inr b1"
  shows "\<exists>r. load n canon ld self h newLocale0 = Some r \<and>
             outcome r = Resolved True \<and>
             assetTable (boxAfter r) (heapAfter r) =
               ((if clean self then Map.empty else assetTable self h) ++ map_of (rev res))
                 (toString newLocale \<mapsto> b1) \<and>
             (clean self \<longrightarrow>
                dom (assetTable (boxAfter r) (heapAfter r)) = fst ` set res) \<and>
             (\<not> clean self \<longrightarrow>
                dom (assetTable (boxAfter r) (heapAfter r)) = dom (assetTable self h) \<union> fst ` set res \<and>
                (\<forall>Y. Y \<notin> fst ` set res \<longrightarrow>
                   assetTable (boxAfter r) (heapAfter r) Y = assetTable self h Y)) \<and>
             (\<forall>k. k \<in> fst ` set res \<and> k \<noteq> toString newLocale \<longrightarrow>
                assetTable (boxAfter r) (heapAfter r) k = map_of (rev res) k)"
proof -
  let ?cleared = "if clean self then Map.empty else maps h' (assets self)"
  let ?self1 = "self\<lparr>currentLocale := Some newLocale\<rparr>"
  let ?T = "?cleared ++ map_of (rev res)"
  let ?h1 = "h'\<lparr>maps := (maps h')(assets self := ?T)\<rparr>"
  let ?h2 = "?h1\<lparr>maps := (maps ?h1)(assets self := (maps ?h1 (assets self))(toString newLocale \<mapsto> b1))\<rparr>"
  have hp: "maps h' = maps h" "arrays h' = arrays h"
    using enumerateFallbacksToSet_heap(1) [OF enum] by simp_all
  have k1: "maps ?h1 (assets self) (toString newLocale) = Some b0"
    using key by (simp add: map_add_def)
  have i1: "applyInitializers (arrays ?h1 (bundleInitializers self)) newLocale b0 = Inr b1"
    using inits hp by simp
  have run: "runInitializers (arrays ?h1 (bundleInitializers self)) newLocale (assets self) ?h1 = Inr ?h2"
    by (rule runInitializers_apply [OF k1 i1])
  have e1: "bundleInitializers ?self1 = bundleInitializers self" "assets ?self1 = assets self"
    by simp_all
  have com: "commit self h' newLocale res = (Resolved True, ?self1, ?h2)"
    unfolding commit_def Let_def setPairs_map_of e1 run by simp
  have ld: "load n canon ld self h newLocale0 =
      Some \<lparr>outcome = Resolved True, boxAfter = self\<lparr>currentLocale := Some newLocale\<rparr>,
            heapAfter = ?h2, fetched = map toString toLoad\<rparr>"
    using arg sup enum all com by (simp add: load_def del: fun_upd_apply)
  have T: "assetTable (self\<lparr>currentLocale := Some newLocale\<rparr>) ?h2 =
      ((if clean self then Map.empty else assetTable self h) ++ map_of (rev res))(toString newLocale \<mapsto> b1)"
    using hp by (simp add: assetTable_def)
  define T' where "T' =
      ((if clean self then Map.empty else assetTable self h) ++ map_of (rev res))(toString newLocale \<mapsto> b1)"
  have kin: "toString newLocale \<in> fst ` set res"
    using key by (metis map_of_eq_None_iff option.distinct(1) set_rev)
  have dm: "dom (map_of (rev res)) = fst ` set res"
    by (simp add: dom_map_of_conv_image_fst)
  have d1: "dom T' = fst ` set res" if "clean self"
    using that kin dm by (auto simp: T'_def)
  have d2: "dom T' = dom (assetTable self h) \<union> fst ` set res" if "\<not> clean self"
    using that kin dm by (auto simp: T'_def)
  have d3: "T' Y = assetTable self h Y" if "\<not> clean self" "Y \<notin> fst ` set res" for Y
  proof -
    have "Y \<noteq> toString newLocale" using that kin by auto
    moreover have "Y \<notin> dom (map_of (rev res))" using that dm by simp
    ultimately show ?thesis using that(1) by (simp add: T'_def map_add_dom_app_simps)
  qed
  have d4: "T' k = map_of (rev res) k" if "k \<in> fst ` set res" "k \<noteq> toString newLocale" for k
  proof -
    have "k \<in> dom (map_of (rev res))" using that dm by simp
    then show ?thesis using that(2) by (simp add: T'_def map_add_dom_app_simps)
  qed
  let ?r = "\<lparr>outcome = Resolved True, boxAfter = self\<lparr>currentLocale := Some newLocale\<rparr>,
            heapAfter = ?h2, fetched = map toString toLoad\<rparr>"
  have tr: "assetTable (boxAfter ?r) (heapAfter ?r) = T'"
    using T by (simp only: T'_def LoadResult.simps)
  have A: "load n canon ld self h newLocale0 = Some ?r" by (rule ld)
  have B: "outcome ?r = Resolved True" by simp
  have C: "(clean self \<longrightarrow> dom T' = fst ` set res) \<and>
           (\<not> clean self \<longrightarrow>
              dom T' = dom (assetTable self h) \<union> fst ` set res \<and>
              (\<forall>Y. Y \<notin> fst ` set res \<longrightarrow> T' Y = assetTable self h Y)) \<and>
           (\<forall>k. k \<in> fst ` set res \<and> k \<noteq> toString newLocale \<longrightarrow> T' k = map_of (rev res) k)"
    by (intro conjI impI allI; (elim conjE)?; (rule d1 d2 d3 d4; assumption))
  have D: "T' =
      ((if clean self then Map.empty else assetTable self h) ++ map_of (rev res))(toString newLocale \<mapsto> b1)"
    by (simp only: T'_def)
  show ?thesis
    apply (rule exI [of _ ?r])
    apply (simp only: tr)
    apply (rule conjI [OF A])
    apply (rule conjI [OF B])
    apply (rule conjI [OF D])
    apply (rule C)
    done
qed

text \<open>
  Witness: under the clean policy the table after loading \<^verbatim>\<open>pt-BR\<close> holds \<^verbatim>\<open>pt-BR\<close>,
  \<^verbatim>\<open>pt\<close> and \<^verbatim>\<open>en\<close>; under the accumulate policy the table that held four locales
  holds the same four after \<^verbatim>\<open>es\<close> is loaded again.
\<close>

theorem load_success_table_witness:
  "map_option outcome
     (load (Suc (Suc (Suc 0))) canonLangRegion (exLoaders exBackend) exBox exHeap (Some ptBR)) =
     Some (Resolved True) \<and>
   map_option (\<lambda>r. dom (assetTable (boxAfter r) (heapAfter r)))
     (load (Suc (Suc (Suc 0))) canonLangRegion (exLoaders exBackend) exBox exHeap (Some ptBR)) =
     Some {''pt-BR'', ''pt'', ''en''} \<and>
   map_option (\<lambda>r. dom (assetTable (boxAfter r) (heapAfter r)))
     (load (Suc 0) canonLangRegion (exLoaders [''es'' \<mapsto> mkBundle [(''greeting'', Some ''Buenas'')]])
        chainBox chainHeap (Some \<lparr>oid = 15, toString = ''es''\<rparr>)) =
     Some {''pt-BR'', ''pt'', ''es'', ''en''}"
proof -
  let ?toLoad = "[ptBR, \<lparr>oid = nextId exHeap, toString = ''pt''\<rparr>,
                 \<lparr>oid = Suc (nextId exHeap), toString = ''en''\<rparr>,
                 \<lparr>oid = Suc (Suc (nextId exHeap)), toString = ''en''\<rparr>]"
  let ?res = "[(''pt-BR'', bundlePtBR), (''pt'', bundlePt), (''en'', bundleEn), (''en'', bundleEn)]"
  have arg: "(case Some ptBR of None \<Rightarrow> defaultLocale exBox | Some l \<Rightarrow> Some l) = Some ptBR"
    by simp
  have enum: "enumerateFallbacksToSet (Suc (Suc (Suc 0))) canonLangRegion exBox (toString ptBR)
      ([ptBR], exHeap) = Some (Inr (?toLoad, exHeap\<lparr>nextId := Suc (Suc (Suc (nextId exHeap)))\<rparr>))"
    using enumerate_exBox [of exHeap 0] by (simp add: exHeap_fields exBox_fields)
  have pa: "Promise_all (map (loadSingleLocale (exLoaders exBackend) exBox) ?toLoad) = Inr ?res"
    by (simp add: loadSingle_exBox exBackend_def ptBR_def)
  have key: "map_of (rev ?res) (toString ptBR) = Some bundlePtBR"
    by (simp add: exBox_fields)
  have inits: "applyInitializers (arrays exHeap (bundleInitializers exBox)) ptBR bundlePtBR = Inr bundlePtBR"
    by (simp add: exHeap_fields)
  have 1: "map_option outcome
     (load (Suc (Suc (Suc 0))) canonLangRegion (exLoaders exBackend) exBox exHeap (Some ptBR)) =
     Some (Resolved True) \<and>
   map_option (\<lambda>r. dom (assetTable (boxAfter r) (heapAfter r)))
     (load (Suc (Suc (Suc 0))) canonLangRegion (exLoaders exBackend) exBox exHeap (Some ptBR)) =
     Some {''pt-BR'', ''pt'', ''en''}"
    using load_success_table [OF arg exBox_fields(5) enum pa key inits]
  proof (elim exE conjE)
    fix r
    assume "load (Suc (Suc (Suc 0))) canonLangRegion (exLoaders exBackend) exBox exHeap (Some ptBR) = Some r"
      "outcome r = Resolved True"
      "clean exBox \<longrightarrow> dom (assetTable (boxAfter r) (heapAfter r)) = fst ` set ?res"
    then show ?thesis by (simp add: exBox_fields insert_commute)
  qed
  let ?es = "\<lparr>oid = 15, toString = ''es''\<rparr>"
  let ?b = "mkBundle [(''greeting'', Some ''Buenas'')]"
  let ?ld = "exLoaders [''es'' \<mapsto> ?b]"
  have arg2: "(case Some ?es of None \<Rightarrow> defaultLocale chainBox | Some l \<Rightarrow> Some l) = Some ?es"
    by simp
  have sup2: "supportsLocale chainBox (LocaleObj ?es)"
    by (simp add: supportsLocale_def chainBox_def)
  have enum2: "enumerateFallbacksToSet (Suc 0) canonLangRegion chainBox (toString ?es) ([?es], chainHeap) =
      Some (Inr ([?es], chainHeap))"
    by (simp add: chainBox_def)
  have pa2: "Promise_all (map (loadSingleLocale ?ld chainBox) [?es]) = Inr [(''es'', ?b)]"
    by (simp add: loadSingleLocale_def exLoaders_def tableLoader_def chainBox_def Let_def)
  have key2: "map_of (rev [(''es'', ?b)]) (toString ?es) = Some ?b"
    by simp
  have inits2: "applyInitializers (arrays chainHeap (bundleInitializers chainBox)) ?es ?b = Inr ?b"
    by (simp add: chainHeap_def)
  have nc: "\<not> clean chainBox" by (simp add: chainBox_def)
  have dc: "dom (assetTable chainBox chainHeap) = {''pt-BR'', ''pt'', ''es'', ''en''}"
    by (auto simp: assetTable_def chainBox_def chainHeap_def)
  have 2: "map_option (\<lambda>r. dom (assetTable (boxAfter r) (heapAfter r)))
     (load (Suc 0) canonLangRegion ?ld chainBox chainHeap (Some ?es)) =
     Some {''pt-BR'', ''pt'', ''es'', ''en''}"
    using load_success_table [OF arg2 sup2 enum2 pa2 key2 inits2]
  proof (elim exE conjE)
    fix r
    assume "load (Suc 0) canonLangRegion ?ld chainBox chainHeap (Some ?es) = Some r"
      "\<not> clean chainBox \<longrightarrow>
         dom (assetTable (boxAfter r) (heapAfter r)) =
           dom (assetTable chainBox chainHeap) \<union> fst ` set [(''es'', ?b)] \<and>
         (\<forall>Y. Y \<notin> fst ` set [(''es'', ?b)] \<longrightarrow>
            assetTable (boxAfter r) (heapAfter r) Y = assetTable chainBox chainHeap Y)"
    then show ?thesis using nc dc by (simp add: insert_absorb)
  qed
  show ?thesis by (rule conjI [OF conjunct1 [OF 1] conjI [OF conjunct2 [OF 1] 2]])
qed

subsection \<open>Lookup\<close>

text \<open>
  A message that is found gives a string or the exception of the formatter, never
  \<^verbatim>\<open>null\<close>.
\<close>

lemma formatFound_found: "messageFound (formatFound b msg args errors)"
  by (simp add: messageFound_def formatFound_def split: option.split sum.split prod.split)

lemma messageFound_simps:
  "messageFound (Inl e)" "messageFound (Inr (Some str, errors'))" "\<not> messageFound (Inr (None, errors'))"
  by (simp_all add: messageFound_def)

lemma formatFound_value:
  "mvalue msg = None \<Longrightarrow> formatFound b msg args errors = Inr (Some [], errors)"
  "mvalue msg = Some pat \<Longrightarrow> b_formatPattern b pat args = (txt, rep) \<Longrightarrow>
     formatFound b msg args (Some sink) = Inr (Some txt, Some (sink @ rep))"
  "mvalue msg = Some pat \<Longrightarrow> b_formatPattern b pat args = (txt, []) \<Longrightarrow>
     formatFound b msg args None = Inr (Some txt, None)"
  "mvalue msg = Some pat \<Longrightarrow> b_formatPattern b pat args = (txt, e # es) \<Longrightarrow>
     formatFound b msg args None = Inl e"
  by (simp_all add: formatFound_def formatPattern_def)

text \<open>
  One call of \<^verbatim>\<open>_getMessageByLocale\<close> and of \<^verbatim>\<open>_hasMessageByLocale\<close>, by whether the
  bundle of the locale defines the message.
\<close>

lemma ownMessage_None_get:
  "ownMessage bx h loc msgId = None \<Longrightarrow>
   (case maps h (assets bx) loc of
      None \<Rightarrow> None
    | Some bundle \<Rightarrow>
        (case b_getMessage bundle msgId of
           None \<Rightarrow> None
         | Some msg \<Rightarrow> Some (formatFound bundle msg args errors))) = None"
  by (auto simp: ownMessage_def split: option.splits)

lemma ownMessage_None_has:
  "ownMessage bx h loc msgId = None \<Longrightarrow>
   (case maps h (assets bx) loc of None \<Rightarrow> None | Some bundle \<Rightarrow> b_getMessage bundle msgId) = None"
  by (auto simp: ownMessage_def split: option.splits)

lemma getMessageByLocale_own:
  "ownMessage bx h loc msgId = Some (b, msg) \<Longrightarrow>
   getMessageByLocale (Suc n) bx h msgId loc args errors = Some (formatFound b msg args errors)"
  by (auto simp: ownMessage_def split: option.splits)

lemma hasMessageByLocale_own:
  "ownMessage bx h loc msgId = Some (b, msg) \<Longrightarrow> hasMessageByLocale (Suc n) bx h msgId loc = Some True"
  by (auto simp: ownMessage_def split: option.splits)

lemma getMessageByLocale_absent:
  "ownMessage bx h loc msgId = None \<Longrightarrow>
   getMessageByLocale (Suc n) bx h msgId loc args errors =
     (case (case fallbacks bx loc of
              None \<Rightarrow> Some (Inr (None, errors))
            | Some fls \<Rightarrow> getMessageByLocale_for n bx h msgId fls args errors) of
        None \<Rightarrow> None
      | Some (Inl e) \<Rightarrow> Some (Inl e)
      | Some (Inr (Some r, errors')) \<Rightarrow> Some (Inr (Some r, errors'))
      | Some (Inr (None, errors')) \<Rightarrow>
          (case defaultLocale bx of
             None \<Rightarrow> Some (Inr (None, errors'))
           | Some d \<Rightarrow>
               if toLowerCase loc \<noteq> toLowerCase (toString d)
               then getMessageByLocale n bx h msgId (toString d) args errors'
               else Some (Inr (None, errors'))))"
  by (simp add: ownMessage_None_get)

lemma hasMessageByLocale_absent:
  "ownMessage bx h loc msgId = None \<Longrightarrow>
   hasMessageByLocale (Suc n) bx h msgId loc =
     (case (case fallbacks bx loc of
              None \<Rightarrow> Some False
            | Some fls \<Rightarrow> hasMessageByLocale_for n bx h msgId fls) of
        None \<Rightarrow> None
      | Some True \<Rightarrow> Some True
      | Some False \<Rightarrow>
          (case defaultLocale bx of
             None \<Rightarrow> Some False
           | Some d \<Rightarrow>
               if toLowerCase loc \<noteq> toLowerCase (toString d)
               then hasMessageByLocale n bx h msgId (toString d)
               else Some False))"
  by (simp add: ownMessage_None_has)

lemma getMessageByLocale_for_nil:
  "getMessageByLocale_for n bx h msgId [] args errors = Some (Inr (None, errors))"
  by simp

lemma getMessageByLocale_for_single:
  "getMessageByLocale_for n bx h msgId [fl] args errors =
     getMessageByLocale n bx h msgId fl args errors"
  by (simp split: option.split sum.split prod.split)

text \<open>
  The three ways in which a call that ends does so: it throws, it returns a string, it
  returns \<^verbatim>\<open>null\<close>.
\<close>

lemma result_cases:
  obtains (threw) e where "r = Inl e"
    | (found) str errors' where "r = Inr (Some str, errors')"
    | (absent) errors' where "r = Inr (None, errors')"
proof (cases r)
  case (Inl e)
  then show ?thesis by (rule threw)
next
  case (Inr p)
  obtain res errors' where "p = (res, errors')" by (cases p)
  then show ?thesis using Inr found absent by (cases res) auto
qed

lemma getMessageByLocale_fallback_found:
  assumes "ownMessage bx h loc msgId = None" "fallbacks bx loc = Some [fl]"
    and "getMessageByLocale n bx h msgId fl args errors = Some r" "messageFound r"
  shows "getMessageByLocale (Suc n) bx h msgId loc args errors = Some r"
  using assms(2-4)
  by (cases r rule: result_cases)
    (simp_all add: getMessageByLocale_absent [OF assms(1)] getMessageByLocale_for_single
      messageFound_simps del: getMessageByLocale.simps getMessageByLocale_for.simps)

lemma getMessageByLocale_fallback_absent:
  assumes "ownMessage bx h loc msgId = None"
    and "fallbacks bx loc = Some [fl] \<and> getMessageByLocale n bx h msgId fl args errors = Some (Inr (None, errors))
         \<or> noFallbacks bx loc"
    and "defaultLocale bx = Some D"
  shows "getMessageByLocale (Suc n) bx h msgId loc args errors =
     (if toLowerCase loc \<noteq> toLowerCase (toString D)
      then getMessageByLocale n bx h msgId (toString D) args errors
      else Some (Inr (None, errors)))"
  using assms(2,3)
  by (auto simp add: getMessageByLocale_absent [OF assms(1)] getMessageByLocale_for_single
      getMessageByLocale_for_nil noFallbacks_def
      simp del: getMessageByLocale.simps getMessageByLocale_for.simps)

text \<open>
  At every depth bound, \<^verbatim>\<open>_hasMessageByLocale\<close> ends exactly when
  \<^verbatim>\<open>_getMessageByLocale\<close> does, and it returns \<^verbatim>\<open>true\<close> exactly when the other returns
  a string or throws.
\<close>

lemma has_get_agree:
  "hasMessageByLocale n bx h msgId loc =
     map_option messageFound (getMessageByLocale n bx h msgId loc args errors)"
  "hasMessageByLocale_for n bx h msgId fls =
     map_option messageFound (getMessageByLocale_for n bx h msgId fls args errors)"
proof (induction n bx h msgId loc args errors and n bx h msgId fls args errors
    rule: getMessageByLocale_getMessageByLocale_for.induct)
  case (1 bx h msgId loc args errors)
  show ?case by simp
next
  case (2 n bx h msgId loc args errors)
  show ?case
  proof (cases "ownMessage bx h loc msgId")
    case (Some p)
    obtain b msg where p: "p = (b, msg)" by (cases p)
    show ?thesis
      using Some p
      by (simp add: getMessageByLocale_own hasMessageByLocale_own formatFound_found
          del: getMessageByLocale.simps hasMessageByLocale.simps)
  next
    case None
    note own = ownMessage_None_get [OF None, of args errors]
    define fbres where "fbres =
        (case fallbacks bx loc of
           None \<Rightarrow> Some (Inr (None, errors))
         | Some fls \<Rightarrow> getMessageByLocale_for n bx h msgId fls args errors)"
    define fbhas where "fbhas =
        (case fallbacks bx loc of
           None \<Rightarrow> Some False
         | Some fls \<Rightarrow> hasMessageByLocale_for n bx h msgId fls)"
    have fb: "fbhas = map_option messageFound fbres"
      using "2.IH"(1) [OF own]
      by (simp add: fbres_def fbhas_def messageFound_simps split: option.split)
    have lhs: "hasMessageByLocale (Suc n) bx h msgId loc =
        (case fbhas of
           None \<Rightarrow> None
         | Some True \<Rightarrow> Some True
         | Some False \<Rightarrow>
             (case defaultLocale bx of
                None \<Rightarrow> Some False
              | Some d \<Rightarrow>
                  if toLowerCase loc \<noteq> toLowerCase (toString d)
                  then hasMessageByLocale n bx h msgId (toString d)
                  else Some False))"
      unfolding fbhas_def by (rule hasMessageByLocale_absent [OF None])
    have rhs: "getMessageByLocale (Suc n) bx h msgId loc args errors =
        (case fbres of
           None \<Rightarrow> None
         | Some (Inl e) \<Rightarrow> Some (Inl e)
         | Some (Inr (Some r, errors')) \<Rightarrow> Some (Inr (Some r, errors'))
         | Some (Inr (None, errors')) \<Rightarrow>
             (case defaultLocale bx of
                None \<Rightarrow> Some (Inr (None, errors'))
              | Some d \<Rightarrow>
                  if toLowerCase loc \<noteq> toLowerCase (toString d)
                  then getMessageByLocale n bx h msgId (toString d) args errors'
                  else Some (Inr (None, errors'))))"
      unfolding fbres_def by (rule getMessageByLocale_absent [OF None])
    show ?thesis
    proof (cases fbres)
      case fNone: None
      then show ?thesis using fb lhs rhs by simp
    next
      case (Some r)
      show ?thesis
      proof (cases r rule: result_cases)
        case (threw e)
        then show ?thesis using fb lhs rhs Some by (simp add: messageFound_simps)
      next
        case (found str errors')
        then show ?thesis using fb lhs rhs Some by (simp add: messageFound_simps)
      next
        case (absent errors')
        have f: "fbres = Some (Inr (None, errors'))" using Some absent by simp
        show ?thesis
          using fb lhs rhs f "2.IH"(2) [OF own f [unfolded fbres_def] refl refl refl]
          by (auto simp: messageFound_simps split: option.splits)
      qed
    qed
  qed
next
  case (3 n bx h msgId args errors)
  show ?case by (simp add: messageFound_simps)
next
  case (4 n bx h msgId fl rest args errors)
  show ?case
  proof (cases "getMessageByLocale n bx h msgId fl args errors")
    case None
    then show ?thesis using "4.IH"(1) by simp
  next
    case (Some r)
    show ?thesis
    proof (cases r rule: result_cases)
      case (threw e)
      then show ?thesis using "4.IH"(1) Some by (simp add: messageFound_simps)
    next
      case (found str errors')
      then show ?thesis using "4.IH"(1) Some by (simp add: messageFound_simps)
    next
      case (absent errors')
      have g: "getMessageByLocale n bx h msgId fl args errors = Some (Inr (None, errors'))"
        using Some absent by simp
      show ?thesis
        using "4.IH"(1) g "4.IH"(2) [OF g refl refl refl]
        by (simp add: messageFound_simps)
    qed
  qed
qed

lemma hasMessage_agree:
  "hasMessage n bx h msgId = map_option messageFound (getMessage n bx h msgId args errors)"
  by (simp add: hasMessage_def getMessage_def has_get_agree(1) [of n bx h msgId _ args errors]
      messageFound_simps split: option.split)

text \<open>
  A lookup that ends within depth \<open>n\<close> ends in the same way within every greater
  depth.
\<close>

lemma getMessageByLocale_mono:
  "getMessageByLocale n bx h msgId loc args errors = Some r \<Longrightarrow>
     getMessageByLocale (Suc n) bx h msgId loc args errors = Some r"
  "getMessageByLocale_for n bx h msgId fls args errors = Some r \<Longrightarrow>
     getMessageByLocale_for (Suc n) bx h msgId fls args errors = Some r"
proof (induction n bx h msgId loc args errors and n bx h msgId fls args errors
    arbitrary: r and r
    rule: getMessageByLocale_getMessageByLocale_for.induct)
  case (1 bx h msgId loc args errors)
  then show ?case by simp
next
  case (2 n bx h msgId loc args errors)
  show ?case
  proof (cases "ownMessage bx h loc msgId")
    case (Some p)
    obtain b msg where p: "p = (b, msg)" by (cases p)
    show ?thesis
      using "2.prems" Some p
      by (simp add: getMessageByLocale_own del: getMessageByLocale.simps)
  next
    case None
    note own = ownMessage_None_get [OF None, of args errors]
    define fb where "fb k =
        (case fallbacks bx loc of
           None \<Rightarrow> Some (Inr (None, errors))
         | Some fls \<Rightarrow> getMessageByLocale_for k bx h msgId fls args errors)" for k
    have step: "getMessageByLocale (Suc k) bx h msgId loc args errors =
        (case fb k of
           None \<Rightarrow> None
         | Some (Inl e) \<Rightarrow> Some (Inl e)
         | Some (Inr (Some r, errors')) \<Rightarrow> Some (Inr (Some r, errors'))
         | Some (Inr (None, errors')) \<Rightarrow>
             (case defaultLocale bx of
                None \<Rightarrow> Some (Inr (None, errors'))
              | Some d \<Rightarrow>
                  if toLowerCase loc \<noteq> toLowerCase (toString d)
                  then getMessageByLocale k bx h msgId (toString d) args errors'
                  else Some (Inr (None, errors'))))" for k
      unfolding fb_def by (rule getMessageByLocale_absent [OF None])
    have fbm: "fb (Suc n) = Some q" if "fb n = Some q" for q
      using that "2.IH"(1) [OF own] by (auto simp: fb_def split: option.splits)
    obtain q where q: "fb n = Some q"
      using "2.prems" step [of n] by (cases "fb n") auto
    show ?thesis
    proof (cases q rule: result_cases)
      case (threw e)
      then show ?thesis
        using "2.prems" step [of n] step [of "Suc n"] q fbm [OF q] by simp
    next
      case (found str errors')
      then show ?thesis
        using "2.prems" step [of n] step [of "Suc n"] q fbm [OF q] by simp
    next
      case (absent e)
      have fn: "fb n = Some (Inr (None, e))" using q absent by simp
      show ?thesis
      proof (cases "defaultLocale bx")
        case dNone: None
        then show ?thesis
          using "2.prems" step [of n] step [of "Suc n"] fn fbm [OF fn] by simp
      next
        case (Some d)
        show ?thesis
        proof (cases "toLowerCase loc \<noteq> toLowerCase (toString d)")
          case True
          have g: "getMessageByLocale n bx h msgId (toString d) args e = Some r"
            using "2.prems" step [of n] fn Some True by simp
          have "getMessageByLocale (Suc n) bx h msgId (toString d) args e = Some r"
            using "2.IH"(2) [OF own fn [unfolded fb_def] refl refl refl Some True g] .
          then show ?thesis
            using step [of "Suc n"] fbm [OF fn] Some True
            by (simp del: getMessageByLocale.simps)
        next
          case False
          then show ?thesis
            using "2.prems" step [of n] step [of "Suc n"] fn fbm [OF fn] Some by simp
        qed
      qed
    qed
  qed
next
  case (3 n bx h msgId args errors)
  then show ?case by simp
next
  case (4 n bx h msgId fl rest args errors)
  obtain q where q: "getMessageByLocale n bx h msgId fl args errors = Some q"
    using "4.prems" by (cases "getMessageByLocale n bx h msgId fl args errors") auto
  have q': "getMessageByLocale (Suc n) bx h msgId fl args errors = Some q"
    by (rule "4.IH"(1) [OF q])
  show ?case
  proof (cases q rule: result_cases)
    case (threw e)
    have "r = Inl e" using "4.prems" q threw by simp
    then show ?thesis using q' threw by (simp del: getMessageByLocale.simps)
  next
    case (found str errors')
    have "r = Inr (Some str, errors')" using "4.prems" q found by simp
    then show ?thesis using q' found by (simp del: getMessageByLocale.simps)
  next
    case (absent e)
    have g: "getMessageByLocale n bx h msgId fl args errors = Some (Inr (None, e))"
      using q absent by simp
    have "getMessageByLocale_for n bx h msgId rest args e = Some r"
      using "4.prems" g by simp
    from "4.IH"(2) [OF g refl refl refl this]
    have "getMessageByLocale_for (Suc n) bx h msgId rest args e = Some r" .
    then show ?thesis
      using q' absent by (simp del: getMessageByLocale.simps)
  qed
qed

lemma getMessage_mono:
  "n \<le> m \<Longrightarrow> getMessage n bx h msgId args errors = Some r \<Longrightarrow>
     getMessage m bx h msgId args errors = Some r"
proof (induction m)
  case 0
  then show ?case by simp
next
  case (Suc m)
  show ?case
  proof (cases "n = Suc m")
    case True
    then show ?thesis using Suc.prems by simp
  next
    case False
    then have "getMessage m bx h msgId args errors = Some r"
      using Suc by simp
    then show ?thesis
      using getMessageByLocale_mono(1) [of m bx h msgId _ args errors r]
      by (auto simp: getMessage_def simp del: getMessageByLocale.simps split: option.splits)
  qed
qed

lemma hasMessage_mono:
  "n \<le> m \<Longrightarrow> hasMessage n bx h msgId = Some b \<Longrightarrow> hasMessage m bx h msgId = Some b"
proof -
  assume le: "n \<le> m" and hn: "hasMessage n bx h msgId = Some b"
  from hn obtain r where r: "getMessage n bx h msgId None None = Some r" "b = messageFound r"
    unfolding hasMessage_agree [of n bx h msgId None None] by auto
  from getMessage_mono [OF le r(1)] r(2) show ?thesis
    unfolding hasMessage_agree [of m bx h msgId None None] by simp
qed

text \<open>
  The cascade need not end, even when the fallbacks have no cycle: if the default locale
  has a fallback \<open>e\<close> (different from it when case is ignored, and without fallbacks
  of its own) and neither bundle defines the message, the call for the default locale
  calls \<open>e\<close>, which calls the default locale, and so on; no depth is enough. The
  properties C8 and C4 below are about a default locale without fallbacks.
\<close>

lemma default_with_fallback_diverges:
  assumes d: "defaultLocale bx = Some D"
    and fd: "fallbacks bx (toString D) = Some [e]"
    and ed: "toLowerCase e \<noteq> toLowerCase (toString D)"
    and fe: "noFallbacks bx e"
    and ad: "ownMessage bx h (toString D) msgId = None"
    and ae: "ownMessage bx h e msgId = None"
  shows "getMessageByLocale n bx h msgId (toString D) args errors = None \<and>
         getMessageByLocale n bx h msgId e args errors = None"
proof (induction n)
  case 0
  show ?case by simp
next
  case (Suc n)
  have E: "getMessageByLocale (Suc n) bx h msgId e args errors = None"
    using Suc d ed fe
    by (auto simp: getMessageByLocale_absent [OF ae] noFallbacks_def getMessageByLocale_for_nil
        simp del: getMessageByLocale.simps getMessageByLocale_for.simps)
  have "getMessageByLocale (Suc n) bx h msgId (toString D) args errors = None"
    using Suc fd
    by (simp add: getMessageByLocale_absent [OF ad] getMessageByLocale_for_single
        del: getMessageByLocale.simps getMessageByLocale_for.simps)
  then show ?case using E by simp
qed

text \<open>
  A call throws only when it was given no sink; a call that returns leaves the sink with
  errors appended, and leaves it as it was when it returns \<^verbatim>\<open>null\<close>.
\<close>

lemma formatFound_sink:
  "formatFound b msg args errors = r \<Longrightarrow>
     (case r of
        Inl e \<Rightarrow> errors = None
      | Inr (res, errors') \<Rightarrow>
          res \<noteq> None \<and> (\<exists>reported. errors' = map_option (\<lambda>sink. sink @ reported) errors))"
proof (cases "mvalue msg")
  case None
  assume "formatFound b msg args errors = r"
  then have r: "r = Inr (Some [], errors)" using None by (simp add: formatFound_def)
  have "\<exists>reported. errors = map_option (\<lambda>sink. sink @ reported) errors"
    by (rule exI [of _ "[]"]) (simp add: option.map_ident)
  then show ?thesis using r by simp
next
  case (Some pattern)
  assume "formatFound b msg args errors = r"
  then show ?thesis
    using Some
    by (auto simp: formatFound_def formatPattern_def split: prod.splits option.splits list.splits)
qed

lemma getMessageByLocale_sink:
  "getMessageByLocale n bx h msgId loc args errors = Some r \<Longrightarrow>
     (case r of
        Inl e \<Rightarrow> errors = None
      | Inr (res, errors') \<Rightarrow>
          (res = None \<longrightarrow> errors' = errors) \<and>
          (\<exists>reported. errors' = map_option (\<lambda>sink. sink @ reported) errors))"
  "getMessageByLocale_for n bx h msgId fls args errors = Some r \<Longrightarrow>
     (case r of
        Inl e \<Rightarrow> errors = None
      | Inr (res, errors') \<Rightarrow>
          (res = None \<longrightarrow> errors' = errors) \<and>
          (\<exists>reported. errors' = map_option (\<lambda>sink. sink @ reported) errors))"
proof (induction n bx h msgId loc args errors and n bx h msgId fls args errors
    arbitrary: r and r
    rule: getMessageByLocale_getMessageByLocale_for.induct)
  case (1 bx h msgId loc args errors)
  then show ?case by simp
next
  case (2 n bx h msgId loc args errors)
  have nil: "\<exists>reported. errors = map_option (\<lambda>sink. sink @ reported) errors"
    by (rule exI [of _ "[]"]) (simp add: option.map_ident)
  show ?case
  proof (cases "ownMessage bx h loc msgId")
    case (Some p)
    obtain b msg where p: "p = (b, msg)" by (cases p)
    have "getMessageByLocale (Suc n) bx h msgId loc args errors = Some (formatFound b msg args errors)"
      using Some p by (simp add: getMessageByLocale_own del: getMessageByLocale.simps)
    then have ff: "formatFound b msg args errors = r"
      using "2.prems" by simp
    show ?thesis using formatFound_sink [OF ff] by (auto split: sum.splits)
  next
    case None
    note own = ownMessage_None_get [OF None, of args errors]
    define fbres where "fbres =
        (case fallbacks bx loc of
           None \<Rightarrow> Some (Inr (None, errors))
         | Some fls \<Rightarrow> getMessageByLocale_for n bx h msgId fls args errors)"
    have fbsink: "(case q of
        Inl e \<Rightarrow> errors = None
      | Inr (res, errors') \<Rightarrow>
          (res = None \<longrightarrow> errors' = errors) \<and>
          (\<exists>reported. errors' = map_option (\<lambda>sink. sink @ reported) errors))"
      if "fbres = Some q" for q
    proof (cases "fallbacks bx loc")
      case fNone: None
      then show ?thesis using that nil by (auto simp: fbres_def)
    next
      case (Some fls)
      then show ?thesis using that "2.IH"(1) [OF own Some, of q] by (simp add: fbres_def)
    qed
    have step: "getMessageByLocale (Suc n) bx h msgId loc args errors =
        (case fbres of
           None \<Rightarrow> None
         | Some (Inl e) \<Rightarrow> Some (Inl e)
         | Some (Inr (Some r, errors')) \<Rightarrow> Some (Inr (Some r, errors'))
         | Some (Inr (None, errors')) \<Rightarrow>
             (case defaultLocale bx of
                None \<Rightarrow> Some (Inr (None, errors'))
              | Some d \<Rightarrow>
                  if toLowerCase loc \<noteq> toLowerCase (toString d)
                  then getMessageByLocale n bx h msgId (toString d) args errors'
                  else Some (Inr (None, errors'))))"
      unfolding fbres_def by (rule getMessageByLocale_absent [OF None])
    show ?thesis
    proof (cases fbres)
      case fNone: None
      then show ?thesis using step "2.prems" by simp
    next
      case (Some q)
      show ?thesis
      proof (cases q rule: result_cases)
        case (threw e)
        then show ?thesis using step "2.prems" Some fbsink [OF Some] by auto
      next
        case (found str errors')
        then show ?thesis using step "2.prems" Some fbsink [OF Some] by auto
      next
        case (absent e)
        have fb0: "fbres = Some (Inr (None, e))" using Some absent by simp
        have ee: "e = errors" using fbsink [OF fb0] by simp
        have fb: "fbres = Some (Inr (None, errors))" using fb0 ee by simp
        show ?thesis
        proof (cases "defaultLocale bx")
          case dNone: None
          then show ?thesis using step "2.prems" fb ee nil by auto
        next
          case (Some d)
          show ?thesis
          proof (cases "toLowerCase loc \<noteq> toLowerCase (toString d)")
            case True
            have "getMessageByLocale n bx h msgId (toString d) args errors = Some r"
              using step "2.prems" fb Some True by simp
            from "2.IH"(2) [OF own fb [unfolded fbres_def] refl refl refl Some True this]
            show ?thesis .
          next
            case False
            then show ?thesis using step "2.prems" fb ee nil Some by auto
          qed
        qed
      qed
    qed
  qed
next
  case (3 n bx h msgId args errors)
  have "\<exists>reported. errors = map_option (\<lambda>sink. sink @ reported) errors"
    by (rule exI [of _ "[]"]) (simp add: option.map_ident)
  then show ?case using 3 by auto
next
  case (4 n bx h msgId fl rest args errors)
  show ?case
  proof (cases "getMessageByLocale n bx h msgId fl args errors")
    case None
    then show ?thesis using "4.prems" by simp
  next
    case (Some q)
    show ?thesis
    proof (cases q rule: result_cases)
      case (threw e)
      then show ?thesis using "4.prems" Some "4.IH"(1) [OF Some] by auto
    next
      case (found str errors')
      then show ?thesis using "4.prems" Some "4.IH"(1) [OF Some] by auto
    next
      case (absent e)
      have g0: "getMessageByLocale n bx h msgId fl args errors = Some (Inr (None, e))"
        using Some absent by simp
      have ee: "e = errors" using "4.IH"(1) [OF g0] by simp
      have g: "getMessageByLocale n bx h msgId fl args errors = Some (Inr (None, errors))"
        using g0 ee by simp
      have "getMessageByLocale_for n bx h msgId rest args errors = Some r"
        using "4.prems" g by simp
      from "4.IH"(2) [OF g refl refl refl this] show ?thesis .
    qed
  qed
qed

text \<open>
  The bundle with the message \<^verbatim>\<open>hello\<close> and the two stores that hold it.
\<close>

lemma helloBox_fields:
  "currentLocale helloBox = Some \<lparr>oid = 12, toString = ''en''\<rparr>"
  "ownMessage helloBox helloHeap ''en'' ''hello'' =
     Some (bundleHello, \<lparr>mvalue = Some ''Hello, { $name }!''\<rparr>)"
  by (simp_all add: helloBox_def helloHeap_def exBox_def exHeap_def emptyHeap_def ownMessage_def
      bundleHello_def)

lemma bundleHello_format:
  "b_formatPattern bundleHello pattern None =
     (''Hello, {$name}!'', [ReferenceError ''Unknown variable: $name''])"
  "b_formatPattern bundleHello pattern (Some [(''name'', ''Ana'')]) = (''Hello, Ana!'', [])"
  by (simp_all add: bundleHello_def)

lemmas chain_defs = chainBox_def chainHeap_def chainHelloHeap_def ptBR_def ownMessage_def mkBundle_def
  noFallbacks_def toLowerCase_def lowerChar_def

lemma chainHello_own:
  "ownMessage chainBox chainHelloHeap (toString ptBR) ''hello'' = None"
  "ownMessage chainBox chainHelloHeap ''pt'' ''hello'' = None"
  "ownMessage chainBox chainHelloHeap ''es'' ''hello'' =
     Some (bundleHello, \<lparr>mvalue = Some ''Hello, { $name }!''\<rparr>)"
  "ownMessage chainBox chainHelloHeap ''en'' ''hello'' = None"
  by (simp_all add: chain_defs bundleHello_def)

lemma chainBox_fields:
  "currentLocale chainBox = Some ptBR"
  "fallbacks chainBox (toString ptBR) = Some [''pt'']"
  "fallbacks chainBox ''pt'' = Some [''es'']"
  "noFallbacks chainBox ''es''"
  "defaultLocale chainBox = Some \<lparr>oid = 9, toString = ''en''\<rparr>"
  "noFallbacks chainBox (toString \<lparr>oid = 9, toString = ''en''\<rparr>)"
  "toLowerCase (toString ptBR) \<noteq> toLowerCase (toString \<lparr>oid = 9, toString = ''en''\<rparr>)"
  by (simp_all add: chain_defs)

text \<open>
  C7, as stated, fails. \<^verbatim>\<open>getMessage(id)\<close> passes its \<^verbatim>\<open>errors\<close>, \<^verbatim>\<open>null\<close> when the
  caller gives none, to \<^verbatim>\<open>formatPattern\<close> and catches nothing. For the message
  \<^verbatim>\<open>hello = Hello, { $name }!\<close> of the current locale's bundle, looked up without
  arguments and without a sink, \<^verbatim>\<open>hasMessage\<close> returns \<^verbatim>\<open>true\<close> and \<^verbatim>\<open>getMessage\<close>
  throws the error of the unknown variable: it returns no result.
\<close>

theorem hasMessage_getMessage_counterexample:
  "hasMessage (Suc 0) helloBox helloHeap ''hello'' = Some True \<and>
   getMessage (Suc 0) helloBox helloHeap ''hello'' None None =
     Some (Inl (ReferenceError ''Unknown variable: $name''))"
  by (simp add: hasMessage_def getMessage_def helloBox_fields getMessageByLocale_own
      hasMessageByLocale_own formatFound_def formatPattern_def bundleHello_format
      del: getMessageByLocale.simps hasMessageByLocale.simps)

text \<open>
  C7, amended. In every state and at every depth bound, \<^verbatim>\<open>hasMessage(id)\<close> ends if and
  only if \<^verbatim>\<open>getMessage(id)\<close> does, and it is \<^verbatim>\<open>true\<close> if and only if \<^verbatim>\<open>getMessage\<close>
  finds the message, that is, returns a string or throws the error of the formatter.
  \<^verbatim>\<open>getMessage\<close> throws only when it was given no sink; with a sink, \<^verbatim>\<open>hasMessage\<close> is
  \<^verbatim>\<open>true\<close> if and only if \<^verbatim>\<open>getMessage\<close> returns a string. A message of the current
  locale's bundle that has no value makes \<^verbatim>\<open>hasMessage\<close> true and \<^verbatim>\<open>getMessage\<close> the
  empty string; without a current locale \<^verbatim>\<open>hasMessage\<close> is false and \<^verbatim>\<open>getMessage\<close>
  is \<^verbatim>\<open>null\<close>.
\<close>

theorem hasMessage_iff_getMessage:
  "hasMessage n bx h msgId = map_option messageFound (getMessage n bx h msgId args errors) \<and>
   (hasMessage n bx h msgId = Some True) =
     ((\<exists>e. getMessage n bx h msgId args errors = Some (Inl e)) \<or>
      (\<exists>str errors'. getMessage n bx h msgId args errors = Some (Inr (Some str, errors')))) \<and>
   (getMessage n bx h msgId args errors = Some (Inl e) \<longrightarrow> errors = None) \<and>
   (hasMessage n bx h msgId = Some True) =
     (\<exists>str errors'. getMessage n bx h msgId args (Some sink) = Some (Inr (Some str, errors'))) \<and>
   (currentLocale bx = Some l \<and> ownMessage bx h (toString l) msgId = Some (b, msg) \<and>
    mvalue msg = None \<longrightarrow>
      hasMessage (Suc n) bx h msgId = Some True \<and>
      getMessage (Suc n) bx h msgId args errors = Some (Inr (Some [], errors))) \<and>
   (currentLocale bx = None \<longrightarrow>
      hasMessage n bx h msgId = Some False \<and>
      getMessage n bx h msgId args errors = Some (Inr (None, errors)))"
proof -
  have agree: "hasMessage n bx h msgId = map_option messageFound (getMessage n bx h msgId args errs)"
    for errs
    by (rule hasMessage_agree)
  have throws: "errs = None" if "getMessage n bx h msgId args errs = Some (Inl e)" for errs e
  proof (cases "currentLocale bx")
    case None
    then show ?thesis using that by (simp add: getMessage_def)
  next
    case (Some l)
    then have "getMessageByLocale n bx h msgId (toString l) args errs = Some (Inl e)"
      using that by (simp add: getMessage_def)
    from getMessageByLocale_sink(1) [OF this] show ?thesis by simp
  qed
  have iff: "(hasMessage n bx h msgId = Some True) =
     ((\<exists>e. getMessage n bx h msgId args errors = Some (Inl e)) \<or>
      (\<exists>str errors'. getMessage n bx h msgId args errors = Some (Inr (Some str, errors'))))"
  proof (cases "getMessage n bx h msgId args errors")
    case None
    then show ?thesis using agree [of errors] by simp
  next
    case (Some r)
    then show ?thesis
      using agree [of errors] by (cases r rule: result_cases) (simp_all add: messageFound_simps)
  qed
  have iffsink: "(hasMessage n bx h msgId = Some True) =
     (\<exists>str errors'. getMessage n bx h msgId args (Some sink) = Some (Inr (Some str, errors')))"
  proof (cases "getMessage n bx h msgId args (Some sink)")
    case None
    then show ?thesis using agree [of "Some sink"] by simp
  next
    case (Some r)
    then show ?thesis
      using agree [of "Some sink"] throws [of "Some sink"]
      by (cases r rule: result_cases) (simp_all add: messageFound_simps)
  qed
  have novalue: "hasMessage (Suc n) bx h msgId = Some True \<and>
      getMessage (Suc n) bx h msgId args errors = Some (Inr (Some [], errors))"
    if "currentLocale bx = Some l \<and> ownMessage bx h (toString l) msgId = Some (b, msg) \<and>
        mvalue msg = None"
    using that
    by (simp add: hasMessage_def getMessage_def getMessageByLocale_own hasMessageByLocale_own
        formatFound_def del: getMessageByLocale.simps hasMessageByLocale.simps)
  have nocurrent: "hasMessage n bx h msgId = Some False \<and>
      getMessage n bx h msgId args errors = Some (Inr (None, errors))"
    if "currentLocale bx = None"
    using that by (simp add: hasMessage_def getMessage_def)
  show ?thesis
    using agree [of errors] iff throws [of errors e] iffsink novalue nocurrent by blast
qed

theorem hasMessage_iff_getMessage_witness:
  "hasMessage (Suc 0) loadedBox loadedHeap ''title'' = Some True \<and>
   getMessage (Suc 0) loadedBox loadedHeap ''title'' None None = Some (Inr (Some [], None)) \<and>
   hasMessage 0 exBox exHeap ''title'' = Some False \<and>
   getMessage 0 exBox exHeap ''title'' None None = Some (Inr (None, None)) \<and>
   getMessage (Suc 0) helloBox helloHeap ''hello'' None None =
     Some (Inl (ReferenceError ''Unknown variable: $name'')) \<and>
   hasMessage (Suc 0) helloBox helloHeap ''hello'' = Some True \<and>
   getMessage (Suc 0) helloBox helloHeap ''hello'' None (Some []) =
     Some (Inr (Some ''Hello, {$name}!'', Some [ReferenceError ''Unknown variable: $name'']))"
proof -
  have cur: "currentLocale loadedBox = Some ptBR" by (simp add: loadedBox_def)
  have own: "ownMessage loadedBox loadedHeap (toString ptBR) ''title'' = Some (bundlePtBR, \<lparr>mvalue = None\<rparr>)"
    by (simp add: ownMessage_def loadedBox_def loadedHeap_def loadedTable_def exBox_def ptBR_def
        bundlePtBR_def mkBundle_def)
  have nv: "mvalue \<lparr>mvalue = None\<rparr> = None" by simp
  have nocur: "currentLocale exBox = None" by (simp add: exBox_def)
  have thr: "getMessage (Suc 0) helloBox helloHeap ''hello'' None None =
     Some (Inl (ReferenceError ''Unknown variable: $name''))"
    by (simp add: getMessage_def helloBox_fields getMessageByLocale_own
        formatFound_def formatPattern_def bundleHello_format del: getMessageByLocale.simps)
  have snk: "getMessage (Suc 0) helloBox helloHeap ''hello'' None (Some []) =
     Some (Inr (Some ''Hello, {$name}!'', Some [ReferenceError ''Unknown variable: $name'']))"
    by (simp add: getMessage_def helloBox_fields getMessageByLocale_own
        formatFound_def formatPattern_def bundleHello_format del: getMessageByLocale.simps)
  note A = hasMessage_iff_getMessage [where n = 0 and bx = loadedBox and h = loadedHeap
          and msgId = "''title''" and args = None and errors = None and l = ptBR
          and b = bundlePtBR and msg = "\<lparr>mvalue = None\<rparr>"]
  note B = hasMessage_iff_getMessage [where n = 0 and bx = exBox and h = exHeap
          and msgId = "''title''" and args = None and errors = None]
  note C = hasMessage_iff_getMessage [where n = "Suc 0" and bx = helloBox and h = helloHeap
          and msgId = "''hello''" and args = None and errors = None and sink = "[]"
          and e = "ReferenceError ''Unknown variable: $name''"]
  have 1: "hasMessage (Suc 0) loadedBox loadedHeap ''title'' = Some True \<and>
     getMessage (Suc 0) loadedBox loadedHeap ''title'' None None = Some (Inr (Some [], None))"
    using A cur own nv by blast
  have 2: "hasMessage 0 exBox exHeap ''title'' = Some False \<and>
     getMessage 0 exBox exHeap ''title'' None None = Some (Inr (None, None))"
    using B nocur by blast
  have 3: "hasMessage (Suc 0) helloBox helloHeap ''hello'' = Some True"
    using C thr by blast
  show ?thesis using 1 2 3 thr snk by simp
qed

text \<open>
  C8. At a locale that equals the default locale when both are put in lower case, and
  whose own bundle does not define the message, the result of \<^verbatim>\<open>_getMessageByLocale\<close>
  and of \<^verbatim>\<open>_hasMessageByLocale\<close> is the result of the loop over the fallbacks: there is no
  further call for the default locale. Hence, when the current locale equals the default
  locale in this sense, has no fallbacks and does not define the message, \<^verbatim>\<open>getMessage\<close>
  returns \<^verbatim>\<open>null\<close> and \<^verbatim>\<open>hasMessage\<close> returns \<^verbatim>\<open>false\<close> at depth one already, that is
  without any recursive call.
\<close>

theorem default_locale_termination:
  "(defaultLocale bx = Some d \<and> toLowerCase loc = toLowerCase (toString d) \<and>
    ownMessage bx h loc msgId = None \<longrightarrow>
      getMessageByLocale (Suc n) bx h msgId loc args errors =
        (case fallbacks bx loc of
           None \<Rightarrow> Some (Inr (None, errors))
         | Some fls \<Rightarrow> getMessageByLocale_for n bx h msgId fls args errors) \<and>
      hasMessageByLocale (Suc n) bx h msgId loc =
        (case fallbacks bx loc of
           None \<Rightarrow> Some False
         | Some fls \<Rightarrow> hasMessageByLocale_for n bx h msgId fls)) \<and>
   (defaultLocale bx = Some d \<and> currentLocale bx = Some c \<and>
    toLowerCase (toString c) = toLowerCase (toString d) \<and>
    noFallbacks bx (toString c) \<and> ownMessage bx h (toString c) msgId = None \<longrightarrow>
      getMessage (Suc n) bx h msgId args errors = Some (Inr (None, errors)) \<and>
      hasMessage (Suc n) bx h msgId = Some False)"
proof (intro conjI impI)
  assume a: "defaultLocale bx = Some d \<and> toLowerCase loc = toLowerCase (toString d) \<and>
    ownMessage bx h loc msgId = None"
  then show "getMessageByLocale (Suc n) bx h msgId loc args errors =
        (case fallbacks bx loc of
           None \<Rightarrow> Some (Inr (None, errors))
         | Some fls \<Rightarrow> getMessageByLocale_for n bx h msgId fls args errors)"
    by (simp add: getMessageByLocale_absent del: getMessageByLocale.simps
        split: option.split sum.split prod.split)
  from a show "hasMessageByLocale (Suc n) bx h msgId loc =
        (case fallbacks bx loc of
           None \<Rightarrow> Some False
         | Some fls \<Rightarrow> hasMessageByLocale_for n bx h msgId fls)"
    by (simp add: hasMessageByLocale_absent del: hasMessageByLocale.simps split: option.split bool.split)
next
  assume a: "defaultLocale bx = Some d \<and> currentLocale bx = Some c \<and>
    toLowerCase (toString c) = toLowerCase (toString d) \<and>
    noFallbacks bx (toString c) \<and> ownMessage bx h (toString c) msgId = None"
  then show "getMessage (Suc n) bx h msgId args errors = Some (Inr (None, errors))"
    by (auto simp: getMessage_def getMessageByLocale_absent noFallbacks_def simp del: getMessageByLocale.simps)
  from a show "hasMessage (Suc n) bx h msgId = Some False"
    by (auto simp: hasMessage_def hasMessageByLocale_absent noFallbacks_def simp del: hasMessageByLocale.simps)
qed

theorem default_locale_termination_witness:
  "getMessageByLocale (Suc 0) (exBox\<lparr>currentLocale := defaultLocale exBox\<rparr>)
      (exHeap\<lparr>maps := (maps exHeap)(0 := [''en-US'' \<mapsto> bundleEnUS])\<rparr>) ''greeting'' ''EN-us'' None None =
     Some (Inr (None, None)) \<and>
   hasMessageByLocale (Suc 0) (exBox\<lparr>currentLocale := defaultLocale exBox\<rparr>)
      (exHeap\<lparr>maps := (maps exHeap)(0 := [''en-US'' \<mapsto> bundleEnUS])\<rparr>) ''greeting'' ''EN-us'' =
     Some False \<and>
   getMessage (Suc 0) (exBox\<lparr>currentLocale := defaultLocale exBox\<rparr>)
      (exHeap\<lparr>maps := (maps exHeap)(0 := [''en-US'' \<mapsto> bundleEnUS])\<rparr>) ''greeting'' None None =
     Some (Inr (None, None)) \<and>
   hasMessage (Suc 0) (exBox\<lparr>currentLocale := defaultLocale exBox\<rparr>)
      (exHeap\<lparr>maps := (maps exHeap)(0 := [''en-US'' \<mapsto> bundleEnUS])\<rparr>) ''greeting'' = Some False"
proof -
  let ?bx = "exBox\<lparr>currentLocale := defaultLocale exBox\<rparr>"
  let ?h = "exHeap\<lparr>maps := (maps exHeap)(0 := [''en-US'' \<mapsto> bundleEnUS])\<rparr>"
  let ?d = "\<lparr>oid = 11, toString = ''en-US''\<rparr>"
  have d: "defaultLocale ?bx = Some ?d" "currentLocale ?bx = Some ?d"
    by (simp_all add: exBox_def)
  have lc: "toLowerCase ''EN-us'' = toLowerCase (toString ?d)"
    "toLowerCase (toString ?d) = toLowerCase (toString ?d)"
    by (simp_all add: toLowerCase_def lowerChar_def)
  have own: "ownMessage ?bx ?h ''EN-us'' ''greeting'' = None"
    "ownMessage ?bx ?h (toString ?d) ''greeting'' = None"
    by (simp_all add: ownMessage_def exBox_def bundleEnUS_def mkBundle_def)
  have nf: "noFallbacks ?bx (toString ?d)" "fallbacks ?bx ''EN-us'' = None"
    by (simp_all add: noFallbacks_def exBox_def)
  show ?thesis
    using default_locale_termination [where bx = ?bx and d = ?d and loc = "''EN-us''" and h = ?h
          and msgId = "''greeting''" and n = 0 and args = None and errors = None and c = ?d]
      d lc own nf
    by (simp del: getMessageByLocale.simps hasMessageByLocale.simps)
qed

text \<open>
  The cascade over the chain \<open>A\<close>, \<open>b\<close>, \<open>c\<close> with the default locale \<open>D\<close>, in
  terms of what the bundle that defines the message gives.
\<close>

lemma cascade_found:
  assumes cur: "currentLocale bx = Some A"
    and fbA: "fallbacks bx (toString A) = Some [b]"
    and fbB: "fallbacks bx b = Some [c]"
    and fbC: "noFallbacks bx c"
    and dflt: "defaultLocale bx = Some D"
    and fbD: "noFallbacks bx (toString D)"
    and AD: "toLowerCase (toString A) \<noteq> toLowerCase (toString D)"
    and absA: "ownMessage bx h (toString A) msgId = None"
    and absB: "ownMessage bx h b msgId = None"
  shows "ownMessage bx h c msgId = Some (bundleC, msgC) \<Longrightarrow>
            getMessage (Suc (Suc (Suc n))) bx h msgId args errors =
              Some (formatFound bundleC msgC args errors)"
    and "ownMessage bx h c msgId = None \<Longrightarrow> ownMessage bx h (toString D) msgId = Some (bundleD, msgD) \<Longrightarrow>
            getMessage (Suc (Suc (Suc (Suc n)))) bx h msgId args errors =
              Some (formatFound bundleD msgD args errors)"
    and "ownMessage bx h c msgId = None \<Longrightarrow> ownMessage bx h (toString D) msgId = None \<Longrightarrow>
            getMessage (Suc (Suc (Suc (Suc n)))) bx h msgId args errors = Some (Inr (None, errors))"
proof -
  assume inC: "ownMessage bx h c msgId = Some (bundleC, msgC)"
  let ?r = "formatFound bundleC msgC args errors"
  have C: "getMessageByLocale (Suc n) bx h msgId c args errors = Some ?r"
    by (rule getMessageByLocale_own [OF inC])
  have B: "getMessageByLocale (Suc (Suc n)) bx h msgId b args errors = Some ?r"
    by (rule getMessageByLocale_fallback_found [OF absB fbB C formatFound_found])
  have "getMessageByLocale (Suc (Suc (Suc n))) bx h msgId (toString A) args errors = Some ?r"
    by (rule getMessageByLocale_fallback_found [OF absA fbA B formatFound_found])
  then show "getMessage (Suc (Suc (Suc n))) bx h msgId args errors = Some ?r"
    using cur by (simp add: getMessage_def)
next
  assume absC: "ownMessage bx h c msgId = None"
    and inD: "ownMessage bx h (toString D) msgId = Some (bundleD, msgD)"
  let ?r = "formatFound bundleD msgD args errors"
  have mf: "messageFound ?r" by (rule formatFound_found)
  have D: "getMessageByLocale (Suc k) bx h msgId (toString D) args errors = Some ?r" for k
    by (rule getMessageByLocale_own [OF inD])
  have C: "getMessageByLocale (Suc (Suc n)) bx h msgId c args errors =
      (if toLowerCase c \<noteq> toLowerCase (toString D) then Some ?r else Some (Inr (None, errors)))"
    using getMessageByLocale_fallback_absent [OF absC _ dflt, of fl "Suc n" args errors] fbC D [of n]
    by simp
  have B: "getMessageByLocale (Suc (Suc (Suc n))) bx h msgId b args errors =
      (if toLowerCase c \<noteq> toLowerCase (toString D) \<or> toLowerCase b \<noteq> toLowerCase (toString D)
       then Some ?r else Some (Inr (None, errors)))"
  proof (cases "toLowerCase c \<noteq> toLowerCase (toString D)")
    case True
    then have "getMessageByLocale (Suc (Suc n)) bx h msgId c args errors = Some ?r"
      using C by simp
    from getMessageByLocale_fallback_found [OF absB fbB this mf] True show ?thesis by simp
  next
    case False
    then have "getMessageByLocale (Suc (Suc n)) bx h msgId c args errors = Some (Inr (None, errors))"
      using C by simp
    then show ?thesis
      using getMessageByLocale_fallback_absent [OF absB _ dflt, of c "Suc (Suc n)" args errors]
        fbB D [of "Suc n"] False
      by simp
  qed
  have "getMessageByLocale (Suc (Suc (Suc (Suc n)))) bx h msgId (toString A) args errors = Some ?r"
  proof (cases "toLowerCase c \<noteq> toLowerCase (toString D) \<or> toLowerCase b \<noteq> toLowerCase (toString D)")
    case True
    then have "getMessageByLocale (Suc (Suc (Suc n))) bx h msgId b args errors = Some ?r"
      using B by simp
    from getMessageByLocale_fallback_found [OF absA fbA this mf] show ?thesis .
  next
    case False
    then have "getMessageByLocale (Suc (Suc (Suc n))) bx h msgId b args errors = Some (Inr (None, errors))"
      using B by simp
    then show ?thesis
      using getMessageByLocale_fallback_absent [OF absA _ dflt, of b "Suc (Suc (Suc n))" args errors]
        fbA D [of "Suc (Suc n)"] AD
      by simp
  qed
  then show "getMessage (Suc (Suc (Suc (Suc n)))) bx h msgId args errors = Some ?r"
    using cur by (simp add: getMessage_def)
next
  assume absC: "ownMessage bx h c msgId = None"
    and absD: "ownMessage bx h (toString D) msgId = None"
  have D: "getMessageByLocale (Suc k) bx h msgId (toString D) args errors = Some (Inr (None, errors))" for k
    using getMessageByLocale_fallback_absent [OF absD _ dflt, of fl k args errors] fbD by simp
  have C: "getMessageByLocale (Suc (Suc n)) bx h msgId c args errors = Some (Inr (None, errors))"
    using getMessageByLocale_fallback_absent [OF absC _ dflt, of fl "Suc n" args errors] fbC D [of n]
    by simp
  have B: "getMessageByLocale (Suc (Suc (Suc n))) bx h msgId b args errors = Some (Inr (None, errors))"
    using getMessageByLocale_fallback_absent [OF absB _ dflt, of c "Suc (Suc n)" args errors]
      fbB C D [of "Suc n"]
    by simp
  have "getMessageByLocale (Suc (Suc (Suc (Suc n)))) bx h msgId (toString A) args errors =
      Some (Inr (None, errors))"
    using getMessageByLocale_fallback_absent [OF absA _ dflt, of b "Suc (Suc (Suc n))" args errors]
      fbA B D [of "Suc (Suc n)"]
    by simp
  then show "getMessage (Suc (Suc (Suc (Suc n)))) bx h msgId args errors = Some (Inr (None, errors))"
    using cur by (simp add: getMessage_def)
qed

text \<open>
  C4, as stated, fails where the formatter reports an error. With the fallbacks
  \<^verbatim>\<open>pt-BR\<close> to \<^verbatim>\<open>pt\<close> to \<^verbatim>\<open>es\<close>, the default \<^verbatim>\<open>en\<close>, and the message
  \<^verbatim>\<open>hello = Hello, { $name }!\<close> defined in the bundle of \<^verbatim>\<open>es\<close> only,
  \<^verbatim>\<open>getMessage("hello")\<close> does not return a text of that bundle: it throws the error of
  the unknown variable.
\<close>

theorem cascade_order_counterexample:
  "currentLocale chainBox = Some ptBR \<and>
   fallbacks chainBox ''pt-BR'' = Some [''pt''] \<and>
   fallbacks chainBox ''pt'' = Some [''es''] \<and>
   defaultLocale chainBox = Some \<lparr>oid = 9, toString = ''en''\<rparr> \<and>
   ownMessage chainBox chainHelloHeap ''pt-BR'' ''hello'' = None \<and>
   ownMessage chainBox chainHelloHeap ''pt'' ''hello'' = None \<and>
   ownMessage chainBox chainHelloHeap ''es'' ''hello'' =
     Some (bundleHello, \<lparr>mvalue = Some ''Hello, { $name }!''\<rparr>) \<and>
   ownMessage chainBox chainHelloHeap ''en'' ''hello'' = None \<and>
   getMessage (Suc (Suc (Suc 0))) chainBox chainHelloHeap ''hello'' None None =
     Some (Inl (ReferenceError ''Unknown variable: $name''))"
proof -
  have "getMessage (Suc (Suc (Suc 0))) chainBox chainHelloHeap ''hello'' None None =
     Some (formatFound bundleHello \<lparr>mvalue = Some ''Hello, { $name }!''\<rparr> None None)"
    by (rule cascade_found(1) [OF chainBox_fields chainHello_own(1,2,3)])
  then have "getMessage (Suc (Suc (Suc 0))) chainBox chainHelloHeap ''hello'' None None =
     Some (Inl (ReferenceError ''Unknown variable: $name''))"
    by (simp add: formatFound_def formatPattern_def bundleHello_format)
  then show ?thesis
    using chainBox_fields chainHello_own by (simp add: ptBR_def)
qed

text \<open>
  C4, amended. Let the current locale \<open>A\<close> have the fallbacks \<open>[b]\<close>, \<open>b\<close> the
  fallbacks \<open>[c]\<close>, \<open>c\<close> none, and let the default locale \<open>D\<close> have none and differ
  from \<open>A\<close> even when case is ignored; let the bundles of \<open>A\<close> and \<open>b\<close> not define
  the message. If the bundle of \<open>c\<close> defines it, \<^verbatim>\<open>getMessage\<close> gives what that bundle
  makes of it: the empty string for a message without value; otherwise the text that
  the bundle's formatter gives for the message's pattern and the arguments, the errors
  it reports being appended to the sink; except that, when errors are reported and there
  is no sink, the first of them is thrown. If the bundle of \<open>c\<close> does not define it and
  the bundle of \<open>D\<close> does, the same holds with the bundle of \<open>D\<close>. If neither does,
  \<^verbatim>\<open>getMessage\<close> returns \<^verbatim>\<open>null\<close>. The depth bounds say that three, and four, nested
  calls are enough.
\<close>

theorem cascade_order:
  assumes cur: "currentLocale bx = Some A"
    and fbA: "fallbacks bx (toString A) = Some [b]"
    and fbB: "fallbacks bx b = Some [c]"
    and fbC: "noFallbacks bx c"
    and dflt: "defaultLocale bx = Some D"
    and fbD: "noFallbacks bx (toString D)"
    and AD: "toLowerCase (toString A) \<noteq> toLowerCase (toString D)"
    and absA: "ownMessage bx h (toString A) msgId = None"
    and absB: "ownMessage bx h b msgId = None"
  shows
    "(ownMessage bx h c msgId = Some (bundleC, msgC) \<longrightarrow>
        (mvalue msgC = None \<longrightarrow>
           getMessage (Suc (Suc (Suc n))) bx h msgId args errors = Some (Inr (Some [], errors))) \<and>
        (mvalue msgC = Some patC \<and> b_formatPattern bundleC patC args = (txtC, repC) \<longrightarrow>
           (errors = Some sink \<longrightarrow>
              getMessage (Suc (Suc (Suc n))) bx h msgId args errors =
                Some (Inr (Some txtC, Some (sink @ repC)))) \<and>
           (errors = None \<and> repC = [] \<longrightarrow>
              getMessage (Suc (Suc (Suc n))) bx h msgId args errors = Some (Inr (Some txtC, None))) \<and>
           (errors = None \<and> repC = e # es \<longrightarrow>
              getMessage (Suc (Suc (Suc n))) bx h msgId args errors = Some (Inl e)))) \<and>
     (ownMessage bx h c msgId = None \<and> ownMessage bx h (toString D) msgId = Some (bundleD, msgD) \<longrightarrow>
        (mvalue msgD = None \<longrightarrow>
           getMessage (Suc (Suc (Suc (Suc n)))) bx h msgId args errors = Some (Inr (Some [], errors))) \<and>
        (mvalue msgD = Some patD \<and> b_formatPattern bundleD patD args = (txtD, repD) \<longrightarrow>
           (errors = Some sink \<longrightarrow>
              getMessage (Suc (Suc (Suc (Suc n)))) bx h msgId args errors =
                Some (Inr (Some txtD, Some (sink @ repD)))) \<and>
           (errors = None \<and> repD = [] \<longrightarrow>
              getMessage (Suc (Suc (Suc (Suc n)))) bx h msgId args errors =
                Some (Inr (Some txtD, None))) \<and>
           (errors = None \<and> repD = e # es \<longrightarrow>
              getMessage (Suc (Suc (Suc (Suc n)))) bx h msgId args errors = Some (Inl e)))) \<and>
     (ownMessage bx h c msgId = None \<and> ownMessage bx h (toString D) msgId = None \<longrightarrow>
        getMessage (Suc (Suc (Suc (Suc n)))) bx h msgId args errors = Some (Inr (None, errors)))"
proof -
  note cf = cascade_found [OF cur fbA fbB fbC dflt fbD AD absA absB]
  have C: "getMessage (Suc (Suc (Suc n))) bx h msgId args errs =
             Some (formatFound bundleC msgC args errs)"
    if "ownMessage bx h c msgId = Some (bundleC, msgC)" for errs
    using cf(1) [OF that] .
  have D: "getMessage (Suc (Suc (Suc (Suc n)))) bx h msgId args errs =
             Some (formatFound bundleD msgD args errs)"
    if "ownMessage bx h c msgId = None \<and> ownMessage bx h (toString D) msgId = Some (bundleD, msgD)"
    for errs
    using cf(2) [of bundleD msgD] that by simp
  have N: "getMessage (Suc (Suc (Suc (Suc n)))) bx h msgId args errors = Some (Inr (None, errors))"
    if "ownMessage bx h c msgId = None \<and> ownMessage bx h (toString D) msgId = None"
    using cf(3) that by simp
  show ?thesis
  proof (intro conjI impI)
    assume "ownMessage bx h c msgId = None \<and> ownMessage bx h (toString D) msgId = None"
    then show "getMessage (Suc (Suc (Suc (Suc n)))) bx h msgId args errors = Some (Inr (None, errors))"
      by (rule N)
  qed (simp_all add: C D formatFound_value)
qed

theorem cascade_order_witness:
  "getMessage (Suc (Suc (Suc 0))) chainBox chainHeap ''farewell'' None None =
     Some (Inr (Some ''Adios'', None)) \<and>
   getMessage (Suc (Suc (Suc (Suc 0)))) chainBox chainHeap ''thanks'' None None =
     Some (Inr (Some ''Thanks'', None)) \<and>
   getMessage (Suc (Suc (Suc (Suc 0)))) chainBox chainHeap ''missing'' None None =
     Some (Inr (None, None)) \<and>
   getMessage (Suc (Suc (Suc 0))) chainBox chainHelloHeap ''hello'' (Some [(''name'', ''Ana'')]) None =
     Some (Inr (Some ''Hello, Ana!'', None)) \<and>
   getMessage (Suc (Suc (Suc 0))) chainBox chainHelloHeap ''hello'' None (Some []) =
     Some (Inr (Some ''Hello, {$name}!'', Some [ReferenceError ''Unknown variable: $name''])) \<and>
   getMessage (Suc (Suc (Suc 0))) chainBox chainHelloHeap ''hello'' None None =
     Some (Inl (ReferenceError ''Unknown variable: $name''))"
proof -
  let ?D = "\<lparr>oid = 9, toString = ''en''\<rparr>"
  have absA: "ownMessage chainBox chainHeap (toString ptBR) ''farewell'' = None"
    "ownMessage chainBox chainHeap (toString ptBR) ''thanks'' = None"
    "ownMessage chainBox chainHeap (toString ptBR) ''missing'' = None"
    by (simp_all add: chain_defs)
  have absB: "ownMessage chainBox chainHeap ''pt'' ''farewell'' = None"
    "ownMessage chainBox chainHeap ''pt'' ''thanks'' = None"
    "ownMessage chainBox chainHeap ''pt'' ''missing'' = None"
    by (simp_all add: chain_defs)
  have inC: "ownMessage chainBox chainHeap ''es'' ''farewell'' =
      Some (mkBundle [(''greeting'', Some ''Hola''), (''farewell'', Some ''Adios'')], \<lparr>mvalue = Some ''Adios''\<rparr>)"
    by (simp add: chain_defs)
  have absC: "ownMessage chainBox chainHeap ''es'' ''thanks'' = None"
    "ownMessage chainBox chainHeap ''es'' ''missing'' = None"
    by (simp_all add: chain_defs)
  have inD: "ownMessage chainBox chainHeap (toString ?D) ''thanks'' =
      Some (mkBundle [(''greeting'', Some ''Hello''), (''thanks'', Some ''Thanks'')], \<lparr>mvalue = Some ''Thanks''\<rparr>)"
    by (simp add: chain_defs)
  have absD: "ownMessage chainBox chainHeap (toString ?D) ''missing'' = None"
    by (simp add: chain_defs)
  have fmt: "b_formatPattern (mkBundle ms) pat None = (pat, [])" for ms pat
    by (simp add: mkBundle_def)
  note co = cascade_order [where n = 0, OF chainBox_fields]
  have 1: "getMessage (Suc (Suc (Suc 0))) chainBox chainHeap ''farewell'' None None =
      Some (Inr (Some ''Adios'', None))"
    using co [OF absA(1) absB(1), where args = None and errors = None and patC = "''Adios''"
        and txtC = "''Adios''" and repC = "[]"] inC fmt
    by simp
  have 2: "getMessage (Suc (Suc (Suc (Suc 0)))) chainBox chainHeap ''thanks'' None None =
      Some (Inr (Some ''Thanks'', None))"
    using co [OF absA(2) absB(2), where args = None and errors = None and patD = "''Thanks''"
        and txtD = "''Thanks''" and repD = "[]"] absC(1) inD fmt
    by simp
  have 3: "getMessage (Suc (Suc (Suc (Suc 0)))) chainBox chainHeap ''missing'' None None =
      Some (Inr (None, None))"
    using co [OF absA(3) absB(3), where args = None and errors = None] absC(2) absD by simp
  note ch = co [OF chainHello_own(1,2), where bundleC = bundleHello
      and msgC = "\<lparr>mvalue = Some ''Hello, { $name }!''\<rparr>" and patC = "''Hello, { $name }!''"]
  have 4: "getMessage (Suc (Suc (Suc 0))) chainBox chainHelloHeap ''hello'' (Some [(''name'', ''Ana'')]) None =
      Some (Inr (Some ''Hello, Ana!'', None))"
    using ch [where args = "Some [(''name'', ''Ana'')]" and errors = None and txtC = "''Hello, Ana!''"
        and repC = "[]"] chainHello_own(3) bundleHello_format(2)
    by simp
  have 5: "getMessage (Suc (Suc (Suc 0))) chainBox chainHelloHeap ''hello'' None (Some []) =
      Some (Inr (Some ''Hello, {$name}!'', Some [ReferenceError ''Unknown variable: $name'']))"
    using ch [where args = None and errors = "Some []" and sink = "[]" and txtC = "''Hello, {$name}!''"
        and repC = "[ReferenceError ''Unknown variable: $name'']"] chainHello_own(3) bundleHello_format(1)
    by simp
  have 6: "getMessage (Suc (Suc (Suc 0))) chainBox chainHelloHeap ''hello'' None None =
      Some (Inl (ReferenceError ''Unknown variable: $name''))"
    using ch [where args = None and errors = None and txtC = "''Hello, {$name}!''"
        and repC = "[ReferenceError ''Unknown variable: $name'']"
        and e = "ReferenceError ''Unknown variable: $name''" and es = "[]"]
      chainHello_own(3) bundleHello_format(1)
    by simp
  show ?thesis using 1 2 3 4 5 6 by simp
qed

subsection \<open>What the operations leave unchanged\<close>

text \<open>
  C10. Whatever \<^verbatim>\<open>load\<close> returns, the handle afterwards differs from the handle before
  in its current locale at most: the map of path components, the set of supported
  locales, the default locale, the fallbacks, the source, the files, the clean flag and
  the backend selection are the same, and the handle refers to the same asset map and the
  same array of initializers; in the store every array, so the list of initializers, and
  every map other than the asset map of the handle is unchanged. \<^verbatim>\<open>getMessage\<close> and
  \<^verbatim>\<open>hasMessage\<close> assign no field and call no mutating method, so the model gives them no
  state to return; the sink that \<^verbatim>\<open>getMessage\<close> leaves when it returns is the caller's
  sink with errors appended (\<^verbatim>\<open>null\<close> if there was none), and when it throws there was
  no sink.
\<close>

theorem load_frame:
  "(load n canon ld self h newLocale0 = Some r \<longrightarrow>
      localeToPathComponents (boxAfter r) = localeToPathComponents self \<and>
      locales (boxAfter r) = locales self \<and>
      defaultLocale (boxAfter r) = defaultLocale self \<and>
      fallbacks (boxAfter r) = fallbacks self \<and>
      assets (boxAfter r) = assets self \<and>
      source (boxAfter r) = source self \<and>
      files (boxAfter r) = files self \<and>
      bundleInitializers (boxAfter r) = bundleInitializers self \<and>
      clean (boxAfter r) = clean self \<and>
      the_method (boxAfter r) = the_method self \<and>
      arrays (heapAfter r) = arrays h \<and>
      (\<forall>a. a \<noteq> assets self \<longrightarrow> maps (heapAfter r) a = maps h a)) \<and>
   (getMessage n self h msgId args errors = Some (Inr (res, errors')) \<longrightarrow>
      (\<exists>reported. errors' = map_option (\<lambda>sink. sink @ reported) errors)) \<and>
   (getMessage n self h msgId args errors = Some (Inl e) \<longrightarrow> errors = None)"
proof (intro conjI impI)
  assume g: "getMessage n self h msgId args errors = Some (Inr (res, errors'))"
  show "\<exists>reported. errors' = map_option (\<lambda>sink. sink @ reported) errors"
  proof (cases "currentLocale self")
    case None
    then have "errors' = map_option (\<lambda>sink. sink @ []) errors"
      using g by (simp add: getMessage_def option.map_ident)
    then show ?thesis by blast
  next
    case (Some l)
    then have "getMessageByLocale n self h msgId (toString l) args errors = Some (Inr (res, errors'))"
      using g by (simp add: getMessage_def)
    from getMessageByLocale_sink(1) [OF this] show ?thesis by simp
  qed
next
  assume g: "getMessage n self h msgId args errors = Some (Inl e)"
  show "errors = None"
  proof (cases "currentLocale self")
    case None
    then show ?thesis using g by (simp add: getMessage_def)
  next
    case (Some l)
    then have "getMessageByLocale n self h msgId (toString l) args errors = Some (Inl e)"
      using g by (simp add: getMessage_def)
    from getMessageByLocale_sink(1) [OF this] show ?thesis by simp
  qed
qed (use load_cases [of n canon ld self h newLocale0 r] in auto)

theorem load_frame_witness:
  "load (Suc (Suc (Suc 0))) canonLangRegion (exLoaders exBackend) exBox exHeap (Some ptBR) =
     Some \<lparr>outcome = Resolved True, boxAfter = loadedBox, heapAfter = loadedHeap,
           fetched = [''pt-BR'', ''pt'', ''en'', ''en'']\<rparr> \<and>
   localeToPathComponents loadedBox = localeToPathComponents exBox \<and>
   locales loadedBox = locales exBox \<and>
   defaultLocale loadedBox = defaultLocale exBox \<and>
   fallbacks loadedBox = fallbacks exBox \<and>
   assets loadedBox = assets exBox \<and>
   source loadedBox = source exBox \<and>
   files loadedBox = files exBox \<and>
   bundleInitializers loadedBox = bundleInitializers exBox \<and>
   clean loadedBox = clean exBox \<and>
   the_method loadedBox = the_method exBox \<and>
   arrays loadedHeap = arrays exHeap \<and>
   maps loadedHeap 1 = maps exHeap 1 \<and>
   getMessage (Suc 0) loadedBox loadedHeap ''greeting'' None (Some [Failure ''earlier'']) =
     Some (Inr (Some ''Oi'', Some [Failure ''earlier''])) \<and>
   (\<exists>reported. Some [Failure ''earlier''] =
      map_option (\<lambda>sink. sink @ reported) (Some [Failure ''earlier''])) \<and>
   getMessage (Suc 0) helloBox helloHeap ''hello'' None None =
     Some (Inl (ReferenceError ''Unknown variable: $name''))"
proof -
  let ?r = "\<lparr>outcome = Resolved True, boxAfter = loadedBox, heapAfter = loadedHeap,
           fetched = [''pt-BR'', ''pt'', ''en'', ''en'']\<rparr>"
  have L: "load (Suc (Suc (Suc 0))) canonLangRegion (exLoaders exBackend) exBox exHeap (Some ptBR) =
      Some ?r"
    using load_exBox [of exHeap 0] by (simp add: exHeap_fields loadedHeap_def)
  have G: "getMessage (Suc 0) loadedBox loadedHeap ''greeting'' None (Some [Failure ''earlier'']) =
     Some (Inr (Some ''Oi'', Some [Failure ''earlier'']))"
    by (simp add: getMessage_def loadedBox_def loadedHeap_def loadedTable_def exBox_def ptBR_def
        bundlePtBR_def mkBundle_def formatFound_def formatPattern_def)
  have H: "getMessage (Suc 0) helloBox helloHeap ''hello'' None None =
     Some (Inl (ReferenceError ''Unknown variable: $name''))"
    by (simp add: getMessage_def helloBox_fields getMessageByLocale_own
        formatFound_def formatPattern_def bundleHello_format del: getMessageByLocale.simps)
  have a0: "assets exBox = 0" by (rule exBox_fields)
  note F1 = load_frame [where n = "Suc (Suc (Suc 0))" and canon = canonLangRegion
      and ld = "exLoaders exBackend" and self = exBox and h = exHeap and ?newLocale0.0 = "Some ptBR"
      and r = ?r, THEN conjunct1, rule_format, OF L]
  note F2 = load_frame [where n = "Suc 0" and self = loadedBox and h = loadedHeap
      and msgId = "''greeting''" and args = None and errors = "Some [Failure ''earlier'']"
      and res = "Some ''Oi''" and errors' = "Some [Failure ''earlier'']",
      THEN conjunct2, THEN conjunct1, rule_format, OF G]
  note F3 = load_frame [where n = "Suc 0" and self = helloBox and h = helloHeap
      and msgId = "''hello''" and args = None and errors = None
      and e = "ReferenceError ''Unknown variable: $name''",
      THEN conjunct2, THEN conjunct2, rule_format, OF H]
  have M: "maps loadedHeap 1 = maps exHeap 1"
    using F1 a0 by simp
  show ?thesis
    using L G H F1 F2 F3 M by simp
qed

subsection \<open>clone\<close>

text \<open>
  C2, as stated, fails: \<^verbatim>\<open>clone\<close> copies the value of \<^verbatim>\<open>_currentLocale\<close> into a field
  of the new object. After the concrete handle, which has no current locale, has been
  cloned, and \<^verbatim>\<open>load(new Intl.Locale("pt-BR"))\<close> through the original has resolved to
  \<^verbatim>\<open>true\<close>, the current locale of the original is \<^verbatim>\<open>pt-BR\<close> and the one of the clone is
  still \<^verbatim>\<open>null\<close>.
\<close>

theorem clone_currentLocale_counterexample:
  "map_option outcome
     (load (Suc (Suc (Suc 0))) canonLangRegion (exLoaders exBackend) exBox
        (snd (clone exBox exHeap)) (Some ptBR)) = Some (Resolved True) \<and>
   map_option (get_currentLocale \<circ> boxAfter)
     (load (Suc (Suc (Suc 0))) canonLangRegion (exLoaders exBackend) exBox
        (snd (clone exBox exHeap)) (Some ptBR)) = Some (Some ptBR) \<and>
   get_currentLocale (fst (clone exBox exHeap)) \<noteq> Some ptBR"
  by (simp add: clone_exBox load_exBox [OF clonedHeap_fields] get_currentLocale_def loadedBox_def
      exBox_fields)

text \<open>
  C2, amended. A handle and its clone refer to one asset map: after a load through
  either of them has resolved to \<^verbatim>\<open>true\<close>, in whatever store it ran, the asset table
  seen through both is the same. The current locale belongs to each handle: the load
  sets it, to the locale loaded, on the handle it was called on, and the clone has the
  current locale that the original had when it was cloned.
\<close>

theorem clone_shares_assets:
  assumes c: "clone self h = (c, h1)"
  shows "(load n canon ld self h2 newLocale0 = Some r \<and> outcome r = Resolved True \<longrightarrow>
            assetTable (boxAfter r) (heapAfter r) = assetTable c (heapAfter r) \<and>
            get_currentLocale (boxAfter r) =
              (case newLocale0 of None \<Rightarrow> defaultLocale self | Some l \<Rightarrow> Some l) \<and>
            get_currentLocale c = get_currentLocale self) \<and>
         (load n canon ld c h2 newLocale0 = Some r \<and> outcome r = Resolved True \<longrightarrow>
            assetTable (boxAfter r) (heapAfter r) = assetTable self (heapAfter r) \<and>
            get_currentLocale (boxAfter r) =
              (case newLocale0 of None \<Rightarrow> defaultLocale c | Some l \<Rightarrow> Some l) \<and>
            get_currentLocale self = get_currentLocale c)"
proof -
  have cf: "assets c = assets self" "currentLocale c = currentLocale self"
    using c by (auto simp: clone_def Let_def)
  show ?thesis
    using cf load_cases [of n canon ld self h2 newLocale0 r] load_cases [of n canon ld c h2 newLocale0 r]
    by (auto simp: assetTable_def get_currentLocale_def)
qed

theorem clone_shares_assets_witness:
  "clone exBox exHeap = (exBox, clonedHeap) \<and>
   map_option outcome
     (load (Suc (Suc (Suc 0))) canonLangRegion (exLoaders exBackend) exBox clonedHeap (Some ptBR)) =
     Some (Resolved True) \<and>
   map_option (\<lambda>r. assetTable (boxAfter r) (heapAfter r) = assetTable exBox (heapAfter r))
     (load (Suc (Suc (Suc 0))) canonLangRegion (exLoaders exBackend) exBox clonedHeap (Some ptBR)) =
     Some True \<and>
   map_option (get_currentLocale \<circ> boxAfter)
     (load (Suc (Suc (Suc 0))) canonLangRegion (exLoaders exBackend) exBox clonedHeap (Some ptBR)) =
     Some (Some ptBR) \<and>
   get_currentLocale exBox = None"
proof -
  let ?r = "\<lparr>outcome = Resolved True, boxAfter = loadedBox,
           heapAfter = clonedHeap\<lparr>maps := (maps clonedHeap)(0 := loadedTable),
                                  nextId := Suc (Suc (Suc (nextId clonedHeap)))\<rparr>,
           fetched = [''pt-BR'', ''pt'', ''en'', ''en'']\<rparr>"
  have L: "load (Suc (Suc (Suc 0))) canonLangRegion (exLoaders exBackend) exBox clonedHeap (Some ptBR) =
      Some ?r"
    by (rule load_exBox [OF clonedHeap_fields])
  have ok: "outcome ?r = Resolved True" by simp
  note T = clone_shares_assets [OF clone_exBox, where n = "Suc (Suc (Suc 0))" and canon = canonLangRegion
      and ld = "exLoaders exBackend" and ?h2.0 = clonedHeap and ?newLocale0.0 = "Some ptBR" and r = ?r]
  have A: "assetTable (boxAfter ?r) (heapAfter ?r) = assetTable exBox (heapAfter ?r)"
    "get_currentLocale (boxAfter ?r) = Some ptBR"
    using T L ok by simp_all
  have N: "get_currentLocale exBox = None"
    by (simp add: get_currentLocale_def exBox_fields)
  show ?thesis
    using clone_exBox L A N by simp
qed

end
